theory Spec2Isabelle
  imports Main
begin

section \<open>JavaScript values used by the bracket manager\<close>

text \<open>
  The web client (\<^verbatim>\<open>web/frontend/src/App.jsx\<close>) receives its data as JSON. An identifier
  is a JSON number or a JSON string; a field that is \<^verbatim>\<open>null\<close> or absent is \<open>None\<close>.
  Truthiness is the one of JavaScript: \<^verbatim>\<open>0\<close>, the empty string, \<^verbatim>\<open>null\<close> and
  \<^verbatim>\<open>undefined\<close> are falsy.
\<close>

datatype ident = Num int | Str string

fun truthy_id :: "ident option \<Rightarrow> bool" where
  "truthy_id None = False"
| "truthy_id (Some (Num n)) = (n \<noteq> 0)"
| "truthy_id (Some (Str s)) = (s \<noteq> [])"

fun truthy_str :: "string option \<Rightarrow> bool" where
  "truthy_str None = False"
| "truthy_str (Some s) = (s \<noteq> [])"

text \<open>\<^verbatim>\<open>a || b\<close> on identifiers and on strings, \<^verbatim>\<open>a ?? b\<close> on identifiers.\<close>

definition or_id :: "ident option \<Rightarrow> ident option \<Rightarrow> ident option" where
  "or_id a b = (if truthy_id a then a else b)"

definition or_str :: "string option \<Rightarrow> string option \<Rightarrow> string option" where
  "or_str a b = (if truthy_str a then a else b)"

definition nullish_id :: "ident option \<Rightarrow> ident option \<Rightarrow> ident option" where
  "nullish_id a b = (case a of None \<Rightarrow> b | Some x \<Rightarrow> Some x)"

section \<open>The bracket snapshot\<close>

text \<open>
  One match of the bracket snapshot, with the fields the client reads. The field
  \<^verbatim>\<open>id\<close> is \<open>match_id\<close> here; \<open>inferred_winner\<close> is absent (falsy) in what the server
  sends. The keys of the \<^verbatim>\<open>rounds\<close> object are identified with their numeric values
  \<^verbatim>\<open>Number(k)\<close>; the object is the list of its entries in enumeration order.
\<close>

record match =
  match_id :: int
  round_num :: int
  bracket_section :: "string option"
  team1_id :: "ident option"
  team2_id :: "ident option"
  manual_entry1_id :: "ident option"
  manual_entry2_id :: "ident option"
  player1_id :: "ident option"
  player2_id :: "ident option"
  team1_name :: "string option"
  team2_name :: "string option"
  player1_name :: "string option"
  player2_name :: "string option"
  winner_name :: "string option"
  winner_team_id :: "ident option"
  parent_match_id :: "int option"
  parent_match_slot :: "int option"
  inferred_winner :: bool

type_synonym rounds = "(int \<times> match list) list"

section \<open>Round numbers on display\<close>

text \<open>
  \<^verbatim>\<open>BracketView.renderRound\<close>:
  \<^verbatim>\<open>const displayRound = sectionLabel === 'Losers' && roundNum >= 10 ? roundNum - 10 : roundNum;\<close>
  A round number is an integer held in a double; the subtraction is the exact one for
  round numbers up to \<open>2^53\<close>, and the theorems take the stored rounds to lie there.
\<close>

definition displayRound :: "string \<Rightarrow> int \<Rightarrow> int" where
  "displayRound sectionLabel roundNum =
     (if sectionLabel = ''Losers'' \<and> roundNum \<ge> 10 then roundNum - 10 else roundNum)"

text \<open>
  \<^verbatim>\<open>BracketTree\<close> and \<^verbatim>\<open>BracketVisual\<close>:
  \<^verbatim>\<open>Object.entries(rounds || {}).filter(([k]) => Number(k) < 10)
        .sort((a, b) => Number(a[0]) - Number(b[0]))\<close>
  (the sort of JavaScript is stable, as \<open>sort_key\<close> is).
\<close>

definition roundEntries :: "rounds \<Rightarrow> rounds" where
  "roundEntries rs = sort_key fst (filter (\<lambda>(k, ms). k < 10) rs)"

text \<open>
  What \<^verbatim>\<open>BracketView.renderBracket\<close> puts on the page: a tree over some rounds, or one
  round panel with its section label, its displayed round number and its matches.
\<close>

datatype panel =
    Tree rounds
  | Round_panel string int "match list"

definition renderRound :: "int \<Rightarrow> match list \<Rightarrow> string \<Rightarrow> panel" where
  "renderRound roundNum ms sectionLabel =
     Round_panel sectionLabel (displayRound sectionLabel roundNum) ms"

text \<open>
  \<^verbatim>\<open>xByRound[m.round_num] = (xByRound[m.round_num] || []).concat(m)\<close> over the matches
  of a section, then \<^verbatim>\<open>Object.entries(xByRound).sort((a, b) => a[0] - b[0])\<close>: the
  matches grouped by their stored round, in their order, the rounds ascending.
\<close>

definition byRound :: "match list \<Rightarrow> rounds" where
  "byRound ms =
     map (\<lambda>r. (r, filter (\<lambda>m. round_num m = r) ms)) (sort (remdups (map round_num ms)))"

text \<open>
  \<^verbatim>\<open>renderBracket\<close>, over the (enriched) rounds; \<open>isDoubleElim\<close> is
  \<^verbatim>\<open>bracket?.bracket_type === 'double_elim'\<close>.
\<close>

definition renderBracket :: "bool \<Rightarrow> rounds \<Rightarrow> panel list" where
  "renderBracket isDoubleElim rs =
     (let allMatches = concat (map snd rs) in
      if isDoubleElim then
        (let winners = filter (\<lambda>m. or_str (bracket_section m) (Some ''winners'') = Some ''winners'') allMatches;
             losers = filter (\<lambda>m. bracket_section m = Some ''losers'') allMatches;
             grand_finals = filter (\<lambda>m. bracket_section m = Some ''grand_finals'') allMatches
         in [Tree (roundEntries (byRound winners))]
            @ map (\<lambda>(r, ms). renderRound r ms ''Losers'') (byRound losers)
            @ (if length grand_finals > 0 then [renderRound 21 grand_finals ''Grand Finals''] else []))
      else [Tree (roundEntries (roundEntries rs))])"

text \<open>
  Modelled from the spec: the storage convention of the bracket generator, which is not
  among the sources. ``Losers-bracket round numbers are stored offset by +10 from their
  logical round; the grand-finals match uses a fixed sentinel round (e.g. 21).''
\<close>

definition losers_stored_round :: "int \<Rightarrow> int" where
  "losers_stored_round logical = logical + 10"

section \<open>The standby list and the in-game lock\<close>

text \<open>
  A roster entry of \<^verbatim>\<open>ParticipantsAndStandbyView\<close> (the field \<^verbatim>\<open>id\<close> is
  \<open>entry_id\<close>).
\<close>

record entrant =
  entry_id :: ident
  display_name :: string
  list_type :: "string option"
  original_list_type :: "string option"
  source :: "string option"

datatype command =
    RemoveParticipant ident
  | RemoveStandby ident

text \<open>
  The properties a \<^verbatim>\<open>RosterItem\<close> gets that decide removal. The standby column passes
  \<^verbatim>\<open>onRemove={inGame ? undefined : onRemoveStandby}\<close> and \<^verbatim>\<open>canRemove={!inGame}\<close> with
  \<^verbatim>\<open>inGame = item.original_list_type === 'standby' && item.list_type !== 'standby'\<close>;
  the participants column passes \<^verbatim>\<open>onRemove={onRemoveParticipant}\<close> and
  \<^verbatim>\<open>canRemove={true}\<close>.
\<close>

record roster_props =
  item :: entrant
  onRemove :: "(ident \<Rightarrow> command) option"
  canRemove :: bool
  readOnly :: bool

definition inGame :: "entrant \<Rightarrow> bool" where
  "inGame it = (original_list_type it = Some ''standby'' \<and> list_type it \<noteq> Some ''standby'')"

definition standby_item :: "bool \<Rightarrow> entrant \<Rightarrow> roster_props" where
  "standby_item ro it =
     \<lparr>item = it,
      onRemove = (if inGame it then None else Some RemoveStandby),
      canRemove = \<not> inGame it,
      readOnly = ro\<rparr>"

definition participant_item :: "bool \<Rightarrow> entrant \<Rightarrow> roster_props" where
  "participant_item ro it =
     \<lparr>item = it, onRemove = Some RemoveParticipant, canRemove = True, readOnly = ro\<rparr>"

text \<open>
  \<^verbatim>\<open>RosterItem\<close>: the Remove button is rendered under
  \<^verbatim>\<open>!readOnly && !editing && canRemove\<close>, and a click runs \<^verbatim>\<open>onRemove?.(item.id)\<close>.
  The result is the command a click on Remove issues, \<open>None\<close> when there is no button
  or no handler.
\<close>

definition remove_click :: "roster_props \<Rightarrow> bool \<Rightarrow> command option" where
  "remove_click p editing =
     (if \<not> readOnly p \<and> \<not> editing \<and> canRemove p then
        (case onRemove p of None \<Rightarrow> None | Some h \<Rightarrow> Some (h (entry_id (item p))))
      else None)"

section \<open>Requests of the client and the state they leave\<close>

text \<open>
  The handlers of \<^verbatim>\<open>App\<close> send one request, then either record an error message
  (\<^verbatim>\<open>setError\<close>) or reload the data (\<^verbatim>\<open>fetchData\<close>). The server is not among the
  sources: its answer is a parameter. \<open>Not_ok detail err\<close> is an answer with
  \<^verbatim>\<open>!res.ok\<close> whose body has these \<^verbatim>\<open>detail\<close> and \<^verbatim>\<open>error\<close> fields (both \<open>None\<close>
  when the body is empty and, in \<^verbatim>\<open>advanceOpponent\<close>, which catches the failure of
  \<^verbatim>\<open>res.json()\<close>, when it is not JSON); \<open>Threw msg\<close> is an exception of message
  \<open>msg\<close> before the answer is read: a rejected \<^verbatim>\<open>fetch\<close>, or \<^verbatim>\<open>parseJson\<close> on a
  body that is not JSON (``Server returned ...''). A body is the list of its keys and
  values in the order \<^verbatim>\<open>JSON.stringify\<close> writes them.
\<close>

datatype request =
    Patch_match int "(string \<times> ident option) list"
  | Post_swap_slots "(string \<times> int) list"
  | Post_clear_winner int
  | Post_swap_winner int

datatype response = Ok | Not_ok "string option" "string option" | Threw string

record app =
  sent :: "request list"
  error :: "string option"

record env =
  respond :: "request \<Rightarrow> response"
  fetchData :: "app \<Rightarrow> app"

text \<open>
  The pattern shared by the handlers: \<^verbatim>\<open>const res = await authFetch(...)\<close>; on
  \<^verbatim>\<open>!res.ok\<close> throw an error whose message \<open>msg\<close> is built from the body; else
  \<^verbatim>\<open>await fetchData({ silent: true })\<close>; the \<^verbatim>\<open>catch\<close> runs \<^verbatim>\<open>setError(err.message)\<close>.
\<close>

definition send :: "env \<Rightarrow> request \<Rightarrow> (string option \<Rightarrow> string option \<Rightarrow> string) \<Rightarrow> app \<Rightarrow> app" where
  "send e req msg st =
     (let st1 = st\<lparr>sent := sent st @ [req]\<rparr>
      in case respond e req of
           Ok \<Rightarrow> fetchData e st1
         | Not_ok detail err \<Rightarrow> st1\<lparr>error := Some (msg detail err)\<rparr>
         | Threw m \<Rightarrow> st1\<lparr>error := Some m\<rparr>)"

text \<open>\<^verbatim>\<open>data?.detail || fallback\<close> and \<^verbatim>\<open>data?.detail || data?.error || fallback\<close>.\<close>

definition detail_or :: "string \<Rightarrow> string option \<Rightarrow> string option \<Rightarrow> string" where
  "detail_or fallback detail err = (case or_str detail (Some fallback) of Some m \<Rightarrow> m | None \<Rightarrow> [])"

definition detail_or_error_or :: "string \<Rightarrow> string option \<Rightarrow> string option \<Rightarrow> string" where
  "detail_or_error_or fallback detail err =
     (case or_str (or_str detail err) (Some fallback) of Some m \<Rightarrow> m | None \<Rightarrow> [])"

text \<open>
  \<^verbatim>\<open>swapSlots\<close>:
  \<^verbatim>\<open>if (fromMatchId === toMatchId && fromSlot === toSlot) return;\<close>
  then the POST to \<^verbatim>\<open>bracket/matches/swap-slots\<close> with the body
  \<^verbatim>\<open>{ from_match_id, from_slot, to_match_id, to_slot }\<close>; on \<^verbatim>\<open>!res.ok\<close> it throws
  \<^verbatim>\<open>data?.detail || 'Failed to swap'\<close>.
\<close>

definition swapSlots :: "env \<Rightarrow> int \<Rightarrow> int \<Rightarrow> int \<Rightarrow> int \<Rightarrow> app \<Rightarrow> app" where
  "swapSlots e fromMatchId fromSlot toMatchId toSlot st =
     (if fromMatchId = toMatchId \<and> fromSlot = toSlot then st
      else send e
             (Post_swap_slots
                [(''from_match_id'', fromMatchId), (''from_slot'', fromSlot),
                 (''to_match_id'', toMatchId), (''to_slot'', toSlot)])
             (detail_or ''Failed to swap'') st)"

text \<open>
  What a drop on a bracket slot does (\<^verbatim>\<open>BracketBox.handleDrop\<close> and
  \<^verbatim>\<open>MatchSlot.handleDrop\<close>), for a dragged bracket slot
  \<^verbatim>\<open>{type: 'bracket_slot', matchId, slot}\<close> and a defined \<^verbatim>\<open>onSwapSlots\<close>: a drop on
  another position swaps; a drop on the position itself falls to \<^verbatim>\<open>onDrop\<close>, which is
  \<^verbatim>\<open>updateMatch\<close>, and \<^verbatim>\<open>updateMatch\<close> returns at once for an entity whose type is
  neither \<^verbatim>\<open>'team'\<close> nor \<^verbatim>\<open>'manual_entry'\<close>.
\<close>

definition handleDrop_slot :: "env \<Rightarrow> int \<Rightarrow> int \<Rightarrow> int \<Rightarrow> int \<Rightarrow> app \<Rightarrow> app" where
  "handleDrop_slot e dataMatchId dataSlot matchId slot st =
     (if \<not> (dataMatchId = matchId \<and> dataSlot = slot)
      then swapSlots e dataMatchId dataSlot matchId slot st
      else st)"

section \<open>Strings of JavaScript\<close>

text \<open>
  \<^verbatim>\<open>String(n)\<close> for an integer: its decimal digits, with a minus sign below zero (the
  form JavaScript writes for every integer of less than 22 digits, as identifiers are).
\<close>

fun digits :: "nat \<Rightarrow> string" where
  "digits n =
     (if n < 10 then [char_of (48 + n)] else digits (n div 10) @ [char_of (48 + n mod 10)])"

declare digits.simps [simp del]

fun String_of :: "ident \<Rightarrow> string" where
  "String_of (Num n) = (if n < 0 then CHR ''-'' # digits (nat (- n)) else digits (nat n))"
| "String_of (Str s) = s"

text \<open>\<^verbatim>\<open>s.startsWith(p)\<close>, and \<^verbatim>\<open>s.replace(p, '')\<close>, which drops the first occurrence of \<open>p\<close>.\<close>

definition startsWith :: "string \<Rightarrow> string \<Rightarrow> bool" where
  "startsWith s p = (take (length p) s = p)"

fun replace_first :: "string \<Rightarrow> string \<Rightarrow> string" where
  "replace_first [] p = []"
| "replace_first (c # cs) p =
     (if startsWith (c # cs) p then drop (length p) (c # cs) else c # replace_first cs p)"

text \<open>
  A string is the list of its code units, each below 256: the formats, identifiers and
  names of the application are written in ASCII, and a \<open>char\<close> holds no other code unit.
  The white space of JavaScript among these code units is the space, the five control
  characters from tab to carriage return, and the no-break space U+00A0.
\<close>

definition is_space :: "char \<Rightarrow> bool" where
  "is_space c =
     (c \<in> set [CHR '' '', CHR 0x09, CHR 0x0A, CHR 0x0B, CHR 0x0C, CHR 0x0D, CHR 0xA0])"

text \<open>
  A number as \<^verbatim>\<open>parseInt\<close> returns it. The result is a double: \<^verbatim>\<open>NaN\<close>, or an
  integer of magnitude at most \<open>2^53\<close>, which a double holds exactly, or a double of
  larger magnitude, which is the integer read only up to rounding (\<open>Inexact\<close>; its value
  is left out).
\<close>

datatype number = NaN | Exact int | Inexact

text \<open>
  \<^verbatim>\<open>parseInt(s)\<close> with no radix: leading white space is skipped, then an optional sign,
  then \<^verbatim>\<open>0x\<close> or \<^verbatim>\<open>0X\<close> selects base 16, then the longest run of digits is read;
  with no digit the result is \<^verbatim>\<open>NaN\<close>.
\<close>

definition digit_val :: "nat \<Rightarrow> char \<Rightarrow> nat option" where
  "digit_val radix c =
     (let k = (of_char c :: nat);
          v = (if 48 \<le> k \<and> k \<le> 57 then Some (k - 48)
               else if 97 \<le> k \<and> k \<le> 122 then Some (k - 87)
               else if 65 \<le> k \<and> k \<le> 90 then Some (k - 55)
               else None)
      in case v of None \<Rightarrow> None | Some d \<Rightarrow> if d < radix then Some d else None)"

fun read_digits :: "nat \<Rightarrow> nat option \<Rightarrow> string \<Rightarrow> nat option" where
  "read_digits radix acc [] = acc"
| "read_digits radix acc (c # cs) =
     (case digit_val radix c of
        None \<Rightarrow> acc
      | Some d \<Rightarrow> read_digits radix (Some ((case acc of None \<Rightarrow> 0 | Some a \<Rightarrow> a) * radix + d)) cs)"

definition parseInt :: "string \<Rightarrow> number" where
  "parseInt s =
     (let s1 = dropWhile is_space s;
          neg = startsWith s1 ''-'';
          s2 = (if startsWith s1 ''-'' \<or> startsWith s1 ''+'' then tl s1 else s1);
          hex = (startsWith s2 ''0x'' \<or> startsWith s2 ''0X'');
          s3 = (if hex then drop 2 s2 else s2)
      in case read_digits (if hex then 16 else 10) None s3 of
           None \<Rightarrow> NaN
         | Some v \<Rightarrow>
             if v \<le> 2 ^ 53 then Exact (if neg then - int v else int v) else Inexact)"

section \<open>Teams\<close>

text \<open>
  A team of \<^verbatim>\<open>TeamsView\<close>: \<^verbatim>\<open>{id, name, members: [{id, display_name}]}\<close>.
\<close>

record member =
  member_id :: ident
  member_name :: string

record team =
  team_id :: ident
  team_name :: string
  members :: "member list"

record drag_event =
  active :: string
  over :: "string option"

text \<open>
  \<^verbatim>\<open>const maxPerTeam = parseInt(format?.split('v')[0]) || 2;\<close>
  A missing format gives \<^verbatim>\<open>parseInt(undefined)\<close>, which is \<^verbatim>\<open>NaN\<close>; \<^verbatim>\<open>NaN\<close> and
  zero are falsy, every other number is truthy.
\<close>

definition maxPerTeam :: "string option \<Rightarrow> number" where
  "maxPerTeam format =
     (case format of
        None \<Rightarrow> Exact 2
      | Some f \<Rightarrow>
          (case parseInt (takeWhile (\<lambda>c. c \<noteq> CHR ''v'') f) of
             NaN \<Rightarrow> Exact 2
           | Exact n \<Rightarrow> if n = 0 then Exact 2 else Exact n
           | Inexact \<Rightarrow> Inexact))"

text \<open>
  \<^verbatim>\<open>const allPeople = [...participants.map((p) => ({ ...p, isStandby: false })),
                     ...standby.map((s) => ({ ...s, isStandby: true }))];\<close>
\<close>

definition allPeople :: "entrant list \<Rightarrow> entrant list \<Rightarrow> (entrant \<times> bool) list" where
  "allPeople participants standby =
     map (\<lambda>p. (p, False)) participants @ map (\<lambda>s. (s, True)) standby"

text \<open>\<^verbatim>\<open>const _sameId = (a, b) => a === b || String(a) === String(b);\<close>\<close>

definition sameId :: "ident \<Rightarrow> ident \<Rightarrow> bool" where
  "sameId a b = (a = b \<or> String_of a = String_of b)"

definition as_member :: "entrant \<times> bool \<Rightarrow> member" where
  "as_member p = \<lparr>member_id = entry_id (fst p), member_name = display_name (fst p)\<rparr>"

text \<open>
  \<^verbatim>\<open>TeamsView.handleDragEnd\<close>, for a capacity \<open>maxPer\<close> that is an exact integer
  (\<open>maxPerTeam format = Exact maxPer\<close>). The result is the argument of
  \<^verbatim>\<open>onUpdateTeams\<close>, or \<open>None\<close> where the handler returns without calling it.
\<close>

definition handleDragEnd ::
  "int \<Rightarrow> team list \<Rightarrow> (entrant \<times> bool) list \<Rightarrow> drag_event \<Rightarrow> team list option" where
  "handleDragEnd maxPer teams people event =
     (case over event of
        None \<Rightarrow> None
      | Some overId \<Rightarrow>
          (let activeId = active event in
           if \<not> startsWith activeId ''player-'' then None
           else
             (let entryId = Str (replace_first activeId ''player-'') in
              if overId = ''unassigned'' then
                Some (filter (\<lambda>t. length (members t) > 0 \<or> truthy_id (Some (team_id t)))
                        (map (\<lambda>t. \<lparr>team_id = team_id t, team_name = team_name t,
                                    members = filter (\<lambda>m. \<not> sameId (member_id m) entryId) (members t)\<rparr>)
                           teams))
              else if startsWith overId ''player-'' then
                (let targetId = Str (replace_first overId ''player-'') in
                 if sameId targetId entryId then None
                 else
                   (case (find (\<lambda>p. sameId (entry_id (fst p)) entryId) people,
                          find (\<lambda>p. sameId (entry_id (fst p)) targetId) people) of
                      (Some person, Some targetPerson) \<Rightarrow>
                        (let currentTeam = find (\<lambda>t. \<exists>m \<in> set (members t). sameId (member_id m) entryId) teams;
                             targetTeam = find (\<lambda>t. \<exists>m \<in> set (members t). sameId (member_id m) targetId) teams
                         in Some (map (\<lambda>t.
                              (let isCurrent = (case currentTeam of None \<Rightarrow> False
                                                | Some ct \<Rightarrow> String_of (team_id t) = String_of (team_id ct));
                                   isTarget = (case targetTeam of None \<Rightarrow> False
                                               | Some tt \<Rightarrow> String_of (team_id t) = String_of (team_id tt))
                               in if isCurrent \<and> isTarget then
                                    t\<lparr>members := map (\<lambda>m. if sameId (member_id m) entryId then as_member targetPerson
                                                          else if sameId (member_id m) targetId then as_member person
                                                          else m) (members t)\<rparr>
                                  else if isCurrent then
                                    t\<lparr>members := map (\<lambda>m. if sameId (member_id m) entryId then as_member targetPerson
                                                          else m) (members t)\<rparr>
                                  else if isTarget then
                                    t\<lparr>members := map (\<lambda>m. if sameId (member_id m) targetId then as_member person
                                                          else m) (members t)\<rparr>
                                  else t)) teams))
                    | _ \<Rightarrow> None))
              else if startsWith overId ''team-'' then
                (let teamId = replace_first overId ''team-'' in
                 case find (\<lambda>t. String_of (team_id t) = teamId) teams of
                   None \<Rightarrow> None
                 | Some targetTeam \<Rightarrow>
                     if int (length (members targetTeam)) \<ge> maxPer then None
                     else
                       (let currentTeam = find (\<lambda>t. \<exists>m \<in> set (members t). sameId (member_id m) entryId) teams
                        in case find (\<lambda>p. sameId (entry_id (fst p)) entryId) people of
                             None \<Rightarrow> None
                           | Some person \<Rightarrow>
                               (case currentTeam of
                                  Some ct \<Rightarrow>
                                    Some (map (\<lambda>t.
                                      if String_of (team_id t) = teamId then
                                        (if \<exists>m \<in> set (members t). sameId (member_id m) entryId then t
                                         else t\<lparr>members := members t @ [as_member person]\<rparr>)
                                      else if String_of (team_id t) = String_of (team_id ct) then
                                        t\<lparr>members := filter (\<lambda>m. \<not> sameId (member_id m) entryId) (members t)\<rparr>
                                      else t) teams)
                                | None \<Rightarrow>
                                    Some (map (\<lambda>t.
                                      if String_of (team_id t) = teamId
                                      then t\<lparr>members := members t @ [as_member person]\<rparr>
                                      else t) teams))))
              else None)))"

section \<open>Winners and dropouts: the requests of the client\<close>

text \<open>
  The \<^verbatim>\<open>bracket\<close> state of \<^verbatim>\<open>App\<close>: \<open>format\<close> is \<^verbatim>\<open>bracket.tournament.format\<close>; a
  \<^verbatim>\<open>null\<close> bracket is \<open>None\<close>.
  \<^verbatim>\<open>const m = bracket?.rounds && Object.values(bracket.rounds).flat().find((x) => x.id === matchId);\<close>
  \<^verbatim>\<open>const isTeam = bracket?.tournament?.format !== '1v1';\<close>
\<close>

record bracket =
  format :: "string option"
  rounds :: rounds

definition find_match :: "bracket option \<Rightarrow> int \<Rightarrow> match option" where
  "find_match b matchId =
     (case b of
        None \<Rightarrow> None
      | Some br \<Rightarrow> find (\<lambda>x. match_id x = matchId) (concat (map snd (rounds br))))"

definition isTeam_of :: "bracket option \<Rightarrow> bool" where
  "isTeam_of b = (case b of None \<Rightarrow> True | Some br \<Rightarrow> format br \<noteq> Some ''1v1'')"

text \<open>
  The identifier read from slot \<open>s\<close>, as \<^verbatim>\<open>setWinner\<close> and \<^verbatim>\<open>advanceOpponent\<close> both do:
  \<^verbatim>\<open>isTeam ? (s === 1 ? m.team1_id : m.team2_id)
         : (s === 1 ? (m.manual_entry1_id ?? m.player1_id) : (m.manual_entry2_id ?? m.player2_id))\<close>
\<close>

definition slot_id :: "bool \<Rightarrow> match \<Rightarrow> int \<Rightarrow> ident option" where
  "slot_id isTeam m s =
     (if isTeam then (if s = 1 then team1_id m else team2_id m)
      else (if s = 1 then nullish_id (manual_entry1_id m) (player1_id m)
            else nullish_id (manual_entry2_id m) (player2_id m)))"

text \<open>
  \<^verbatim>\<open>const body = isTeam ? { winner_team_id: winnerId }
     : (m.manual_entry1_id != null || m.manual_entry2_id != null
          ? { winner_manual_entry_id: winnerId } : { winner_player_id: winnerId });\<close>
\<close>

definition winner_body :: "bool \<Rightarrow> match \<Rightarrow> ident option \<Rightarrow> (string \<times> ident option) list" where
  "winner_body isTeam m winnerId =
     (if isTeam then [(''winner_team_id'', winnerId)]
      else if manual_entry1_id m \<noteq> None \<or> manual_entry2_id m \<noteq> None
           then [(''winner_manual_entry_id'', winnerId)]
           else [(''winner_player_id'', winnerId)])"

text \<open>\<^verbatim>\<open>App.setWinner\<close>.\<close>

definition setWinner :: "env \<Rightarrow> bracket option \<Rightarrow> int \<Rightarrow> int \<Rightarrow> app \<Rightarrow> app" where
  "setWinner e b matchId slot st =
     (case find_match b matchId of
        None \<Rightarrow> st
      | Some m \<Rightarrow>
          (let isTeam = isTeam_of b;
               winnerId = slot_id isTeam m slot
           in if \<not> truthy_id winnerId then st
              else send e (Patch_match matchId (winner_body isTeam m winnerId))
                     (detail_or_error_or ''Failed to set winner'') st))"

text \<open>
  \<^verbatim>\<open>App.advanceOpponent\<close>: the winner is read from the slot opposite to \<open>slot\<close>, and
  the field of \<open>slot\<close> itself is set to \<^verbatim>\<open>null\<close> in the same request.
\<close>

definition advanceOpponent :: "env \<Rightarrow> bracket option \<Rightarrow> int \<Rightarrow> int \<Rightarrow> app \<Rightarrow> app" where
  "advanceOpponent e b matchId slot st =
     (case find_match b matchId of
        None \<Rightarrow> st
      | Some m \<Rightarrow>
          (let isTeam = isTeam_of b;
               opponentSlot = (if slot = 1 then 2 else 1);
               winnerId = slot_id isTeam m opponentSlot
           in if \<not> truthy_id winnerId then st
              else
                (let body = winner_body isTeam m winnerId;
                     cleared =
                       (if slot = 1 then
                          (if isTeam then ''team1_id''
                           else if manual_entry1_id m \<noteq> None then ''manual_entry1_id'' else ''player1_id'')
                        else
                          (if isTeam then ''team2_id''
                           else if manual_entry2_id m \<noteq> None then ''manual_entry2_id'' else ''player2_id''))
                 in send e (Patch_match matchId (body @ [(cleared, None)]))
                      (detail_or_error_or ''Failed to advance'') st)))"

text \<open>\<^verbatim>\<open>App.clearWinner\<close> and \<^verbatim>\<open>App.swapWinner\<close>: one POST each.\<close>

definition clearWinner :: "env \<Rightarrow> int \<Rightarrow> app \<Rightarrow> app" where
  "clearWinner e matchId st = send e (Post_clear_winner matchId) (detail_or ''Failed to clear winner'') st"

definition swapWinner :: "env \<Rightarrow> int \<Rightarrow> app \<Rightarrow> app" where
  "swapWinner e matchId st = send e (Post_swap_winner matchId) (detail_or ''Failed to swap winner'') st"

section \<open>What the bracket views offer on a match\<close>

datatype ui_action =
    SetWinner int int
  | AdvanceOpponent int int
  | SwapWinner int
  | ClearWinner int

text \<open>
  \<^verbatim>\<open>const s1 = m.team1_name || m.player1_name || 'TBD';\<close> and the same for slot 2;
  \<^verbatim>\<open>(m.team1_id || m.manual_entry1_id || m.player1_id)\<close> and the same for slot 2.
\<close>

definition slot_name :: "match \<Rightarrow> int \<Rightarrow> string option" where
  "slot_name m s =
     (if s = 1 then or_str (or_str (team1_name m) (player1_name m)) (Some ''TBD'')
      else or_str (or_str (team2_name m) (player2_name m)) (Some ''TBD''))"

definition slot_filled :: "match \<Rightarrow> int \<Rightarrow> bool" where
  "slot_filled m s =
     (if s = 1 then truthy_id (or_id (or_id (team1_id m) (manual_entry1_id m)) (player1_id m))
      else truthy_id (or_id (or_id (team2_id m) (manual_entry2_id m)) (player2_id m)))"

definition bothFilled :: "match \<Rightarrow> bool" where
  "bothFilled m = (slot_filled m 1 \<and> slot_filled m 2)"

text \<open>\<^verbatim>\<open>name && name !== 'TBD' && name !== 'BYE'\<close>\<close>

definition hasContent :: "string option \<Rightarrow> bool" where
  "hasContent name = (truthy_str name \<and> name \<noteq> Some ''TBD'' \<and> name \<noteq> Some ''BYE'')"

text \<open>
  A click on the winner control of a \<^verbatim>\<open>BracketBox\<close> that \<^verbatim>\<open>BracketVisual.renderMatchBlock\<close>
  renders for slot \<open>s\<close> of \<open>m\<close>. \<open>canEdit\<close> is the \<^verbatim>\<open>canEdit\<close> of \<^verbatim>\<open>BracketView\<close>: with
  it the handlers are passed down, without it they are \<^verbatim>\<open>null\<close>, and
  \<^verbatim>\<open>if (isPreview || !onDrop)\<close> renders a box with no control.
  \<^verbatim>\<open>canSetWinner = bothFilled && !m.winner_name\<close>;
  \<^verbatim>\<open>canClickWinner = canEdit && canSetWinner && name && name !== 'TBD' && name !== 'BYE' && onSetWinner\<close>;
  \<^verbatim>\<open>isDropout = canEdit && name && name !== 'TBD' && name !== 'BYE' && !hasOpponent && onAdvanceOpponent\<close>;
  \<^verbatim>\<open>if (canClickWinner) onSetWinner(matchId, slot);
   else if (isDropout) onAdvanceOpponent(matchId, slot === 1 ? 2 : 1);\<close>
\<close>

definition box_winner_click :: "bool \<Rightarrow> bool \<Rightarrow> match \<Rightarrow> int \<Rightarrow> ui_action option" where
  "box_winner_click canEdit isPreview m s =
     (let name = slot_name m s;
          canSetWinner = (bothFilled m \<and> \<not> truthy_str (winner_name m));
          hasOpponent = slot_filled m (if s = 1 then 2 else 1);
          canClickWinner = (canEdit \<and> canSetWinner \<and> hasContent name);
          isDropout = (canEdit \<and> hasContent name \<and> \<not> hasOpponent)
      in if isPreview \<or> \<not> canEdit then None
         else if canClickWinner then Some (SetWinner (match_id m) s)
         else if isDropout then Some (AdvanceOpponent (match_id m) (if s = 1 then 2 else 1))
         else None)"

text \<open>
  The Advance button of a \<^verbatim>\<open>MatchSlot\<close> (round panels and the tree):
  \<^verbatim>\<open>name && name !== label && hasOpponent && onAdvanceOpponent\<close>, and a click runs
  \<^verbatim>\<open>onAdvanceOpponent(matchId, slot)\<close>. \<open>canEdit\<close> says that the handler is passed
  down; a preview renders no \<^verbatim>\<open>MatchSlot\<close>.
\<close>

definition slot_advance_click :: "bool \<Rightarrow> bool \<Rightarrow> match \<Rightarrow> int \<Rightarrow> ui_action option" where
  "slot_advance_click canEdit isPreview m s =
     (let name = slot_name m s;
          label = (if s = 1 then ''Slot 1'' else ''Slot 2'');
          hasOpponent = slot_filled m (if s = 1 then 2 else 1)
      in if isPreview then None
         else if truthy_str name \<and> name \<noteq> Some label \<and> hasOpponent \<and> canEdit
              then Some (AdvanceOpponent (match_id m) s)
              else None)"

text \<open>
  The Swap and Undo buttons under a match that shows a winner. In a round panel of
  \<^verbatim>\<open>BracketView.renderRound\<close> both stand under
  \<^verbatim>\<open>m.winner_name && !m.inferred_winner && canEdit && hasOpponent\<close> (with the handler
  itself tested outside the grand finals); in \<^verbatim>\<open>BracketVisual\<close> and \<^verbatim>\<open>BracketTree\<close>
  under \<^verbatim>\<open>m.winner_name && !m.inferred_winner && onSwapWinner && bothFilled\<close>
  (\<^verbatim>\<open>onClearWinner\<close> for Undo). \<open>has_swap\<close> and \<open>has_clear\<close> say that the handler is
  not \<^verbatim>\<open>null\<close>.
\<close>

definition round_panel_actions :: "bool \<Rightarrow> bool \<Rightarrow> bool \<Rightarrow> string \<Rightarrow> match \<Rightarrow> ui_action list" where
  "round_panel_actions canEdit has_swap has_clear sectionLabel m =
     (if truthy_str (winner_name m) then
        (if sectionLabel = ''Grand Finals'' then
           (if \<not> inferred_winner m \<and> canEdit \<and> bothFilled m
            then [SwapWinner (match_id m), ClearWinner (match_id m)] else [])
         else
           (if \<not> inferred_winner m \<and> canEdit \<and> has_swap \<and> bothFilled m
            then [SwapWinner (match_id m)] else [])
           @ (if \<not> inferred_winner m \<and> canEdit \<and> has_clear \<and> bothFilled m
              then [ClearWinner (match_id m)] else []))
      else [])"

definition visual_actions :: "bool \<Rightarrow> bool \<Rightarrow> bool \<Rightarrow> match \<Rightarrow> ui_action list" where
  "visual_actions has_swap has_clear isChampion m =
     (if truthy_str (winner_name m) then
        (if isChampion then
           (if \<not> inferred_winner m \<and> (has_swap \<or> has_clear) \<and> bothFilled m
            then (if has_swap then [SwapWinner (match_id m)] else [])
                 @ (if has_clear then [ClearWinner (match_id m)] else [])
            else [])
         else
           (if \<not> inferred_winner m \<and> has_swap \<and> bothFilled m then [SwapWinner (match_id m)] else [])
           @ (if \<not> inferred_winner m \<and> has_clear \<and> bothFilled m then [ClearWinner (match_id m)] else []))
      else [])"

definition tree_actions :: "bool \<Rightarrow> bool \<Rightarrow> match \<Rightarrow> ui_action list" where
  "tree_actions has_swap has_clear m =
     (if truthy_str (winner_name m) then
        (if \<not> inferred_winner m \<and> has_swap \<and> slot_filled m 1 \<and> slot_filled m 2
         then [SwapWinner (match_id m)] else [])
        @ (if \<not> inferred_winner m \<and> has_clear \<and> slot_filled m 1 \<and> slot_filled m 2
           then [ClearWinner (match_id m)] else [])
      else [])"

section \<open>Inferred winners\<close>

text \<open>
  \<^verbatim>\<open>enrichRoundsWithInferredWinners\<close> copies every match (\<^verbatim>\<open>const copy = { ...m }\<close>) and
  writes to the copy. Whether the input is left alone depends on which object is
  written, so the matches live in a store: an address is an index into the list of all
  objects, a copy is a new object at the end, and a write replaces the object at one
  address. The \<^verbatim>\<open>rounds\<close> object holds addresses; the function builds a new one
  (\<^verbatim>\<open>const enriched = {}\<close>). A reference of JavaScript always points at an object,
  so the theorems take every address of the input to lie in the store.
\<close>

type_synonym store = "match list"

type_synonym round_refs = "(int \<times> nat list) list"

text \<open>
  \<^verbatim>\<open>const byId = Object.fromEntries(allMatches.map((m) => [m.id, m]));\<close>: of two matches
  with one id the later one stays.
\<close>

definition byId :: "store \<Rightarrow> nat list \<Rightarrow> int \<Rightarrow> nat option" where
  "byId h allMatches k = find (\<lambda>a. match_id (h ! a) = k) (rev allMatches)"

text \<open>
  The body of \<^verbatim>\<open>matches.map((m) => { ... })\<close> for the match at address \<open>a\<close>: the new
  store and the address of the copy. \<open>lookup\<close> is \<^verbatim>\<open>byId\<close>.
\<close>

definition enrich_match :: "(int \<Rightarrow> nat option) \<Rightarrow> store \<Rightarrow> nat \<Rightarrow> store \<times> nat" where
  "enrich_match lookup h a =
     (let copy = length h;
          h1 = h @ [h ! a]
      in if \<not> truthy_str (winner_name (h1 ! copy)) \<and>
            (case parent_match_id (h1 ! copy) of None \<Rightarrow> False | Some k \<Rightarrow> k \<noteq> 0) then
           (case lookup (case parent_match_id (h1 ! copy) of None \<Rightarrow> 0 | Some k \<Rightarrow> k) of
              None \<Rightarrow> (h1, copy)
            | Some parent \<Rightarrow>
                (let slot = parent_match_slot (h1 ! copy);
                     advancedName =
                       (if slot = Some 1 then or_str (team1_name (h1 ! parent)) (player1_name (h1 ! parent))
                        else or_str (team2_name (h1 ! parent)) (player2_name (h1 ! parent)))
                 in if truthy_str advancedName \<and> advancedName \<noteq> Some ''TBD'' \<and> advancedName \<noteq> Some ''BYE''
                    then
                      (let h2 = h1[copy := (h1 ! copy)\<lparr>winner_name := advancedName\<rparr>];
                           h3 = h2[copy := (h2 ! copy)\<lparr>inferred_winner := True\<rparr>]
                       in (h3, copy))
                    else (h1, copy)))
         else (h1, copy))"

fun enrich_matches :: "(int \<Rightarrow> nat option) \<Rightarrow> store \<Rightarrow> nat list \<Rightarrow> store \<times> nat list" where
  "enrich_matches lookup h [] = (h, [])"
| "enrich_matches lookup h (a # as) =
     (let (h1, c) = enrich_match lookup h a;
          (h2, cs) = enrich_matches lookup h1 as
      in (h2, c # cs))"

fun enrich_entries :: "(int \<Rightarrow> nat option) \<Rightarrow> store \<Rightarrow> round_refs \<Rightarrow> store \<times> round_refs" where
  "enrich_entries lookup h [] = (h, [])"
| "enrich_entries lookup h ((r, ms) # rest) =
     (let (h1, cs) = enrich_matches lookup h ms;
          (h2, out) = enrich_entries lookup h1 rest
      in (h2, (r, cs) # out))"

definition enrichRoundsWithInferredWinners :: "store \<Rightarrow> round_refs \<Rightarrow> store \<times> round_refs" where
  "enrichRoundsWithInferredWinners h rs =
     enrich_entries (byId h (concat (map snd rs))) h rs"

text \<open>The matches behind the addresses of a rounds object.\<close>

definition deref :: "store \<Rightarrow> round_refs \<Rightarrow> rounds" where
  "deref h rs = map (\<lambda>(r, as). (r, map (\<lambda>a. h ! a) as)) rs"

text \<open>
  The claim in its own words, to compare the code with: the match that
  \<open>parent_match_id\<close> resolves to among the matches \<open>ms\<close> of the bracket, the name in
  the slot of that match that \<open>parent_match_slot\<close> names (slot 2 for any value but 1,
  as in the code), and what the enriched view shows for a match \<open>m\<close>.
\<close>

definition spec_parent :: "match list \<Rightarrow> match \<Rightarrow> match option" where
  "spec_parent ms m =
     (case parent_match_id m of
        None \<Rightarrow> None
      | Some k \<Rightarrow> if k = 0 then None else find (\<lambda>p. match_id p = k) (rev ms))"

definition spec_target_name :: "match \<Rightarrow> match \<Rightarrow> string option" where
  "spec_target_name parent m =
     (if parent_match_slot m = Some 1 then or_str (team1_name parent) (player1_name parent)
      else or_str (team2_name parent) (player2_name parent))"

definition spec_shown :: "match list \<Rightarrow> match \<Rightarrow> match" where
  "spec_shown ms m =
     (case spec_parent ms m of
        None \<Rightarrow> m
      | Some parent \<Rightarrow>
          if \<not> truthy_str (winner_name m) \<and> hasContent (spec_target_name parent m)
          then m\<lparr>winner_name := spec_target_name parent m, inferred_winner := True\<rparr>
          else m)"

section \<open>The generate control\<close>

text \<open>
  \<^verbatim>\<open>const generateDisabled = !bracketCount || (bracketType === 'double_elim' && bracketCount < 8);\<close>
  where \<^verbatim>\<open>bracketCount\<close> is the number of participants (1v1) or of teams.
\<close>

definition generateDisabled :: "string \<Rightarrow> nat \<Rightarrow> bool" where
  "generateDisabled bracketType bracketCount =
     (bracketCount = 0 \<or> (bracketType = ''double_elim'' \<and> bracketCount < 8))"

text \<open>
  Modelled from the spec: step 1 of the Bracket Generator, which is not among the
  sources (the client only posts to \<^verbatim>\<open>bracket/generate\<close>). ``Let n = entrant count.
  Reject with InsufficientEntrantsError if n < 2 (single elimination) or n < 8 (double
  elimination).'' The error kinds are those of the spec's taxonomy.
\<close>

datatype engine_error =
    ValidationError
  | NotFoundError
  | CapacityError
  | PreconditionError string
  | ConflictError
  | ForbiddenError
  | NoOpError
  | InsufficientEntrantsError

datatype bracket_type = Single_elim | Double_elim

fun bracket_type_name :: "bracket_type \<Rightarrow> string" where
  "bracket_type_name Single_elim = ''single_elim''"
| "bracket_type_name Double_elim = ''double_elim''"

fun min_entrants :: "bracket_type \<Rightarrow> nat" where
  "min_entrants Single_elim = 2"
| "min_entrants Double_elim = 8"

definition generate_check :: "bracket_type \<Rightarrow> nat \<Rightarrow> engine_error + unit" where
  "generate_check bt n = (if n < min_entrants bt then Inl InsufficientEntrantsError else Inr ())"

section \<open>The advancement engine, from the spec\<close>

text \<open>
  Modelled from the spec: the Match of the data model, for the server's advancement
  engine, which is not among the sources (the client only posts to it). ``slot1/slot2
  each hold at most one reference to an Entrant or Team or are empty ("TBD") or hold a
  BYE sentinel. winner references the Entrant/Team that won, or is unset.
  parent_match_id/parent_match_slot identify the single downstream match and slot that
  this match's winner feeds into; the final match has no parent.'' The fields
  \<open>parent_id\<close> and \<open>parent_slot\<close> are the spec's parent_match_id and
  parent_match_slot; a bracket maps the id of a match to the match.
\<close>

datatype content = Empty | Bye | Entity nat

datatype slot_no = Slot1 | Slot2

record node =
  slot1 :: content
  slot2 :: content
  winner :: "nat option"
  parent_id :: "nat option"
  parent_slot :: slot_no

type_synonym engine = "nat \<rightharpoonup> node"

fun entity_of :: "content \<Rightarrow> nat option" where
  "entity_of (Entity x) = Some x"
| "entity_of Empty = None"
| "entity_of Bye = None"

fun get_slot :: "node \<Rightarrow> slot_no \<Rightarrow> content" where
  "get_slot m Slot1 = slot1 m"
| "get_slot m Slot2 = slot2 m"

fun put_slot :: "node \<Rightarrow> slot_no \<Rightarrow> content \<Rightarrow> node" where
  "put_slot m Slot1 c = m\<lparr>slot1 := c\<rparr>"
| "put_slot m Slot2 c = m\<lparr>slot2 := c\<rparr>"

text \<open>
  Modelled from the spec: ``propagates: writes the winner into parent_match_id's
  parent_match_slot.''
\<close>

definition propagate :: "engine \<Rightarrow> node \<Rightarrow> nat \<Rightarrow> engine" where
  "propagate b m w =
     (case parent_id m of
        None \<Rightarrow> b
      | Some p \<Rightarrow>
          (case b p of
             None \<Rightarrow> b
           | Some pm \<Rightarrow> b(p \<mapsto> put_slot pm (parent_slot m) (Entity w))))"

text \<open>
  Modelled from the spec: ``the winner has already propagated into a parent match that
  has itself progressed further'', ``the parent match has itself reached decided using
  that winner as an input to its own decision'': the parent's slot holds the winner and
  the parent has a winner.
\<close>

definition parent_progressed :: "engine \<Rightarrow> node \<Rightarrow> nat \<Rightarrow> bool" where
  "parent_progressed b m w =
     (case parent_id m of
        None \<Rightarrow> False
      | Some p \<Rightarrow>
          (case b p of
             None \<Rightarrow> False
           | Some pm \<Rightarrow> get_slot pm (parent_slot m) = Entity w \<and> winner pm \<noteq> None))"

text \<open>
  Modelled from the spec: ``setWinner(match_id, slot) requires both slots filled
  (PreconditionError otherwise: "cannot set a winner before both slots are filled");
  sets winner to the entity in slot, marks decided, and propagates. Idempotent if called
  again with the same slot; fails with ConflictError if the match already has a
  different winner recorded and the winner has already propagated into a parent match
  that has itself progressed further.'' An unknown id is a NotFoundError.
\<close>

definition engine_setWinner :: "engine \<Rightarrow> nat \<Rightarrow> slot_no \<Rightarrow> engine_error + engine" where
  "engine_setWinner b mid s =
     (case b mid of
        None \<Rightarrow> Inl NotFoundError
      | Some m \<Rightarrow>
          (case (entity_of (slot1 m), entity_of (slot2 m)) of
             (Some x, Some y) \<Rightarrow>
               (let e = (case s of Slot1 \<Rightarrow> x | Slot2 \<Rightarrow> y) in
                if (case winner m of None \<Rightarrow> False | Some w \<Rightarrow> w \<noteq> e \<and> parent_progressed b m w)
                then Inl ConflictError
                else Inr (propagate (b(mid \<mapsto> m\<lparr>winner := Some e\<rparr>)) m e))
           | _ \<Rightarrow> Inl (PreconditionError ''cannot set a winner before both slots are filled'')))"

section \<open>Example data\<close>

definition example_match :: match where
  "example_match =
     \<lparr>match_id = 1, round_num = 1, bracket_section = None,
      team1_id = None, team2_id = None, manual_entry1_id = None, manual_entry2_id = None,
      player1_id = None, player2_id = None,
      team1_name = None, team2_name = None, player1_name = None, player2_name = None,
      winner_name = None, winner_team_id = None,
      parent_match_id = None, parent_match_slot = None, inferred_winner = False\<rparr>"

definition example_entrant :: entrant where
  "example_entrant =
     \<lparr>entry_id = Num 7, display_name = ''Zed'', list_type = Some ''participant'',
      original_list_type = Some ''standby'', source = Some ''manual''\<rparr>"

definition example_app :: app where
  "example_app = \<lparr>sent = [], error = None\<rparr>"

definition example_env :: env where
  "example_env = \<lparr>respond = (\<lambda>r. Not_ok (Some ''NoOpError'') None), fetchData = (\<lambda>st. st\<lparr>error := None\<rparr>)\<rparr>"

definition example_people :: "(entrant \<times> bool) list" where
  "example_people =
     allPeople
       [\<lparr>entry_id = Num 10, display_name = ''Ann'', list_type = Some ''participant'',
         original_list_type = Some ''participant'', source = Some ''manual''\<rparr>,
        \<lparr>entry_id = Num 11, display_name = ''Bob'', list_type = Some ''participant'',
         original_list_type = Some ''participant'', source = Some ''manual''\<rparr>,
        \<lparr>entry_id = Num 12, display_name = ''Cy'', list_type = Some ''participant'',
         original_list_type = Some ''participant'', source = Some ''manual''\<rparr>]
       [example_entrant]"

definition example_teams :: "team list" where
  "example_teams =
     [\<lparr>team_id = Num 1, team_name = ''Alpha'',
       members = [\<lparr>member_id = Num 10, member_name = ''Ann''\<rparr>,
                  \<lparr>member_id = Num 11, member_name = ''Bob''\<rparr>]\<rparr>,
      \<lparr>team_id = Num 2, team_name = ''Beta'',
       members = [\<lparr>member_id = Num 12, member_name = ''Cy''\<rparr>]\<rparr>]"

definition example_store :: store where
  "example_store =
     [example_match\<lparr>match_id := 1, team1_id := Some (Num 3), team2_id := Some (Num 4),
        team1_name := Some ''Alpha'', team2_name := Some ''Beta'',
        parent_match_id := Some 2, parent_match_slot := Some 1\<rparr>,
      example_match\<lparr>match_id := 2, round_num := 2, team1_id := Some (Num 3),
        team1_name := Some ''Alpha''\<rparr>,
      example_match\<lparr>match_id := 3, team1_id := Some (Num 5), team2_id := Some (Num 6),
        team1_name := Some ''Gamma'', team2_name := Some ''Delta'',
        winner_name := Some ''Delta'', parent_match_id := Some 2, parent_match_slot := Some 2\<rparr>]"


definition example_ready :: engine where
  "example_ready =
     [1 \<mapsto> \<lparr>slot1 = Entity 10, slot2 = Entity 11, winner = None, parent_id = Some 2, parent_slot = Slot1\<rparr>,
      2 \<mapsto> \<lparr>slot1 = Empty, slot2 = Empty, winner = None, parent_id = None, parent_slot = Slot1\<rparr>]"

definition example_double :: rounds where
  "example_double =
     [(1, [example_match]),
      (12, [example_match\<lparr>match_id := 5, round_num := 12, bracket_section := Some ''losers''\<rparr>]),
      (21, [example_match\<lparr>match_id := 9, round_num := 21, bracket_section := Some ''grand_finals''\<rparr>])]"

section \<open>Theorems\<close>

subsection \<open>Round numbers\<close>

lemma roundEntries_set:
  "set (roundEntries rs) = {e \<in> set rs. fst e < 10}"
  by (auto simp: roundEntries_def)

lemma roundEntries_sorted: "sorted (map fst (roundEntries rs))"
  by (simp add: roundEntries_def)

lemma renderBracket_grand_finals:
  assumes "filter (\<lambda>m. bracket_section m = Some ''grand_finals'') (concat (map snd rs)) = gf"
    and "gf \<noteq> []"
  shows "last (renderBracket True rs) = Round_panel ''Grand Finals'' 21 gf"
  using assms by (simp add: renderBracket_def renderRound_def displayRound_def Let_def)

lemma byRound_keys: "map fst (byRound ms) = sort (remdups (map round_num ms))"
  by (simp add: byRound_def comp_def)

lemma byRound_mem:
  "(r, xs) \<in> set (byRound ms) \<longleftrightarrow> r \<in> round_num ` set ms \<and> xs = filter (\<lambda>m. round_num m = r) ms"
  by (auto simp: byRound_def)

lemma winners_tree_mem:
  "(r, xs) \<in> set (roundEntries (byRound ms)) \<longleftrightarrow>
     r < 10 \<and> r \<in> round_num ` set ms \<and> xs = filter (\<lambda>m. round_num m = r) ms"
  using byRound_mem [of r xs ms] by (auto simp: roundEntries_set)

lemma renderBracket_double:
  assumes "W = filter (\<lambda>m. bracket_section m = None \<or> bracket_section m = Some []
                          \<or> bracket_section m = Some ''winners'') (concat (map snd rs))"
    and "L = filter (\<lambda>m. bracket_section m = Some ''losers'') (concat (map snd rs))"
    and "G = filter (\<lambda>m. bracket_section m = Some ''grand_finals'') (concat (map snd rs))"
  shows "renderBracket True rs =
           Tree (roundEntries (byRound W))
           # map (\<lambda>r. Round_panel ''Losers'' (if 10 \<le> r then r - 10 else r)
                         (filter (\<lambda>m. round_num m = r) L))
                 (sort (remdups (map round_num L)))
           @ (if G = [] then [] else [Round_panel ''Grand Finals'' 21 G])"
proof -
  have w: "(\<lambda>m. or_str (bracket_section m) (Some ''winners'') = Some ''winners'') =
           (\<lambda>m. bracket_section m = None \<or> bracket_section m = Some []
                          \<or> bracket_section m = Some ''winners'')"
    by (rule ext) (auto simp: or_str_def elim: truthy_str.elims)
  show ?thesis
    unfolding renderBracket_def Let_def w assms [symmetric]
    by (simp add: byRound_def renderRound_def displayRound_def comp_def)
qed

lemma losers_panel:
  assumes "L = filter (\<lambda>m. bracket_section m = Some ''losers'') (concat (map snd rs))"
    and "m \<in> set L" and "10 \<le> round_num m"
  shows "Round_panel ''Losers'' (round_num m - 10) (filter (\<lambda>x. round_num x = round_num m) L)
           \<in> set (renderBracket True rs)"
proof -
  have "round_num m \<in> set (sort (remdups (map round_num L)))" using assms(2) by simp
  then have "Round_panel ''Losers'' (if 10 \<le> round_num m then round_num m - 10 else round_num m)
                 (filter (\<lambda>x. round_num x = round_num m) L)
          \<in> set (map (\<lambda>r. Round_panel ''Losers'' (if 10 \<le> r then r - 10 else r)
                         (filter (\<lambda>m. round_num m = r) L))
                 (sort (remdups (map round_num L))))"
    unfolding set_map by (rule imageI)
  then show ?thesis
    unfolding renderBracket_double [OF refl assms(1) refl] using assms(3) by simp
qed

lemma renderBracket_single:
  "\<exists>ts. renderBracket False rs = [Tree ts] \<and> sorted (map fst ts) \<and> set ts = {e \<in> set rs. fst e < 10}"
proof -
  have "set (roundEntries (roundEntries rs)) = {e \<in> set rs. fst e < 10}"
    unfolding roundEntries_set by auto
  then show ?thesis
    using roundEntries_sorted [of "roundEntries rs"] by (simp add: renderBracket_def)
qed

text \<open>
  Claim C7. A losers round is stored as its logical round plus ten. In a double
  elimination bracket the page is: the winners tree, which holds exactly the winners
  rounds stored under a number below ten, in ascending order, each with its matches;
  then one panel per stored losers round, in ascending order, labelled with the stored
  number minus ten when that number is at least ten; then, when there are grand finals,
  one panel under round 21, whatever round its matches store. In a single elimination
  bracket the page is the tree over exactly the rounds stored under a number below ten.
  Here \<open>W\<close>, \<open>L\<close> and \<open>G\<close> are the matches of the winners, losers and grand finals
  sections (a match with no section counts as winners).
\<close>

theorem C7_round_number_convention:
  assumes "W = filter (\<lambda>m. bracket_section m = None \<or> bracket_section m = Some []
                          \<or> bracket_section m = Some ''winners'') (concat (map snd rs))"
    and "L = filter (\<lambda>m. bracket_section m = Some ''losers'') (concat (map snd rs))"
    and "G = filter (\<lambda>m. bracket_section m = Some ''grand_finals'') (concat (map snd rs))"
    and "\<forall>m\<in>set (concat (map snd rs)). round_num m \<le> 2 ^ 53"
  shows
   "(0 \<le> k \<and> k + 10 \<le> 2 ^ 53 \<longrightarrow> displayRound ''Losers'' (losers_stored_round k) = k)
    \<and> (10 \<le> r \<and> r \<le> 2 ^ 53 \<longrightarrow>
          displayRound ''Losers'' r = r - 10
          \<and> renderRound r ms ''Losers'' = Round_panel ''Losers'' (r - 10) ms)
    \<and> renderBracket True rs =
         Tree (roundEntries (byRound W))
         # map (\<lambda>r. Round_panel ''Losers'' (if 10 \<le> r then r - 10 else r)
                       (filter (\<lambda>m. round_num m = r) L))
               (sort (remdups (map round_num L)))
         @ (if G = [] then [] else [Round_panel ''Grand Finals'' 21 G])
    \<and> (m \<in> set L \<and> 10 \<le> round_num m \<longrightarrow>
          Round_panel ''Losers'' (round_num m - 10) (filter (\<lambda>x. round_num x = round_num m) L)
            \<in> set (renderBracket True rs))
    \<and> (\<forall>q xs. (q, xs) \<in> set (roundEntries (byRound W)) \<longleftrightarrow>
          q < 10 \<and> q \<in> round_num ` set W \<and> xs = filter (\<lambda>m. round_num m = q) W)
    \<and> sorted (map fst (roundEntries (byRound W)))
    \<and> (\<exists>ts. renderBracket False rs = [Tree ts] \<and> sorted (map fst ts)
              \<and> set ts = {e \<in> set rs. fst e < 10})
    \<and> set (roundEntries rs) = {e \<in> set rs. fst e < 10}
    \<and> sorted (map fst (roundEntries rs))
    \<and> (G \<noteq> [] \<longrightarrow> last (renderBracket True rs) = Round_panel ''Grand Finals'' 21 G)"
proof -
  have a: "0 \<le> k \<and> k + 10 \<le> 2 ^ 53 \<longrightarrow> displayRound ''Losers'' (losers_stored_round k) = k"
    by (simp add: displayRound_def losers_stored_round_def)
  have b: "10 \<le> r \<and> r \<le> 2 ^ 53 \<longrightarrow>
          displayRound ''Losers'' r = r - 10
          \<and> renderRound r ms ''Losers'' = Round_panel ''Losers'' (r - 10) ms"
    by (simp add: displayRound_def renderRound_def)
  have c: "m \<in> set L \<and> 10 \<le> round_num m \<longrightarrow>
          Round_panel ''Losers'' (round_num m - 10) (filter (\<lambda>x. round_num x = round_num m) L)
            \<in> set (renderBracket True rs)"
    using losers_panel [OF assms(2)] by blast
  have d: "\<forall>q xs. (q, xs) \<in> set (roundEntries (byRound W)) \<longleftrightarrow>
          q < 10 \<and> q \<in> round_num ` set W \<and> xs = filter (\<lambda>m. round_num m = q) W"
    using winners_tree_mem by blast
  have g: "G \<noteq> [] \<longrightarrow> last (renderBracket True rs) = Round_panel ''Grand Finals'' 21 G"
    using renderBracket_grand_finals [of rs G] assms(3) by blast
  from a b c d g renderBracket_double [OF assms(1,2,3)] roundEntries_sorted [of "byRound W"]
    renderBracket_single [of rs] roundEntries_set [of rs] roundEntries_sorted [of rs]
  show ?thesis by blast
qed

theorem C7_round_number_convention_witness:
  "renderBracket True example_double =
     [Tree [(1, [example_match])],
      Round_panel ''Losers'' 2
        [example_match\<lparr>match_id := 5, round_num := 12, bracket_section := Some ''losers''\<rparr>],
      Round_panel ''Grand Finals'' 21
        [example_match\<lparr>match_id := 9, round_num := 21, bracket_section := Some ''grand_finals''\<rparr>]]
   \<and> displayRound ''Losers'' (losers_stored_round 2) = 2
   \<and> displayRound ''Losers'' 12 = 2"
proof -
  let ?l = "example_match\<lparr>match_id := 5, round_num := 12, bracket_section := Some ''losers''\<rparr>"
  let ?g = "example_match\<lparr>match_id := 9, round_num := 21, bracket_section := Some ''grand_finals''\<rparr>"
  have W: "[example_match] = filter (\<lambda>m. bracket_section m = None \<or> bracket_section m = Some []
                          \<or> bracket_section m = Some ''winners'') (concat (map snd example_double))"
    by (simp add: example_double_def example_match_def)
  have L: "[?l] = filter (\<lambda>m. bracket_section m = Some ''losers'') (concat (map snd example_double))"
    by (simp add: example_double_def example_match_def)
  have G: "[?g] = filter (\<lambda>m. bracket_section m = Some ''grand_finals'') (concat (map snd example_double))"
    by (simp add: example_double_def example_match_def)
  have B: "\<forall>m\<in>set (concat (map snd example_double)). round_num m \<le> 2 ^ 53"
    by (simp add: example_double_def example_match_def)
  have T: "roundEntries (byRound [example_match]) = [(1, [example_match])]"
    by (simp add: roundEntries_def byRound_def example_match_def)
  have k: "(0::int) \<le> 2 \<and> (2::int) + 10 \<le> 2 ^ 53" "(10::int) \<le> 12 \<and> (12::int) \<le> 2 ^ 53"
    by simp_all
  show ?thesis
    using C7_round_number_convention [OF W L G B, where k = 2 and r = 12] T k
    by (simp add: example_match_def)
qed

subsection \<open>The in-game lock\<close>

text \<open>
  Claim C5. For an editor looking at the standby list, the Remove control of an entry is
  missing exactly when \<open>original_list_type = standby\<close> and \<open>list_type \<noteq> standby\<close>; on
  every other standby entry a click on Remove removes that entry. The lock belongs to
  the standby list: in the participants list every entry has its Remove control.
\<close>

theorem C5_in_game_lock:
  "remove_click (standby_item False it) False =
     (if original_list_type it = Some ''standby'' \<and> list_type it \<noteq> Some ''standby''
      then None else Some (RemoveStandby (entry_id it)))
   \<and> remove_click (participant_item False it) False = Some (RemoveParticipant (entry_id it))"
  by (simp add: remove_click_def standby_item_def participant_item_def inGame_def)

theorem C5_in_game_lock_witness:
  "remove_click (standby_item False example_entrant) False = None
   \<and> remove_click (standby_item False (example_entrant\<lparr>list_type := Some ''standby''\<rparr>)) False
       = Some (RemoveStandby (Num 7))
   \<and> remove_click (participant_item False example_entrant) False = Some (RemoveParticipant (Num 7))"
  using C5_in_game_lock [of example_entrant]
    C5_in_game_lock [of "example_entrant\<lparr>list_type := Some ''standby''\<rparr>"]
  by (simp add: example_entrant_def)

subsection \<open>Swapping two slots\<close>

text \<open>
  Claim C10, as the code has it. A swap of a position with itself is a silent no-op: the
  handler returns at once, sends nothing and records no error, and so does a drop of a
  slot on itself. For two distinct positions the handler sends exactly the one
  swap-slots request that names both positions, so the exchange is one request to the
  server.
\<close>

theorem C10_swapSlots:
  "swapSlots e a sa a sa st = st
   \<and> handleDrop_slot e a sa a sa st = st
   \<and> ((a, sa) \<noteq> (b, sb) \<longrightarrow>
        swapSlots e a sa b sb st =
          send e (Post_swap_slots [(''from_match_id'', a), (''from_slot'', sa),
                                   (''to_match_id'', b), (''to_slot'', sb)])
            (detail_or ''Failed to swap'') st
        \<and> handleDrop_slot e a sa b sb st = swapSlots e a sa b sb st)"
  by (auto simp: swapSlots_def handleDrop_slot_def)

theorem C10_swapSlots_witness:
  "swapSlots example_env 5 1 5 1 example_app = example_app
   \<and> sent (swapSlots example_env 5 1 6 2 example_app) =
       [Post_swap_slots [(''from_match_id'', 5), (''from_slot'', 1),
                         (''to_match_id'', 6), (''to_slot'', 2)]]"
  using C10_swapSlots [of example_env 5 1 example_app 6 2]
  by (simp add: send_def example_env_def example_app_def)

text \<open>
  The claim as the spec words it fails: even against a server that would answer
  NoOpError, a swap of position (5, 1) with itself reports no error.
\<close>

theorem C10_swapSlots_counterexample:
  "error (swapSlots example_env 5 1 5 1 example_app) = None
   \<and> sent (swapSlots example_env 5 1 5 1 example_app) = []"
  by (simp add: swapSlots_def example_app_def)

subsection \<open>Entrant minimums\<close>

text \<open>
  Claim C9. Generation is rejected with InsufficientEntrantsError exactly when there are
  fewer than 2 entrants (single elimination) or fewer than 8 (double elimination), and
  goes on otherwise. The client's Generate control is never disabled for a count the
  generator accepts, and for double elimination it is disabled exactly below 8.
\<close>

theorem C9_entrant_minimums:
  "(generate_check Single_elim n = Inl InsufficientEntrantsError) = (n < 2)
   \<and> (generate_check Double_elim n = Inl InsufficientEntrantsError) = (n < 8)
   \<and> (generate_check bt n = Inr ()) = (min_entrants bt \<le> n)
   \<and> (generateDisabled (bracket_type_name bt) n \<longrightarrow>
        generate_check bt n = Inl InsufficientEntrantsError)
   \<and> generateDisabled ''double_elim'' n = (n < 8)"
  by (cases bt) (auto simp: generate_check_def generateDisabled_def)

theorem C9_entrant_minimums_witness:
  "generate_check Double_elim 7 = Inl InsufficientEntrantsError
   \<and> generate_check Double_elim 8 = Inr ()
   \<and> generate_check Single_elim 1 = Inl InsufficientEntrantsError
   \<and> generate_check Single_elim 2 = Inr ()
   \<and> generateDisabled (bracket_type_name Double_elim) 7"
  using C9_entrant_minimums [of 7 Double_elim] C9_entrant_minimums [of 8 Double_elim]
    C9_entrant_minimums [of 1 Single_elim] C9_entrant_minimums [of 2 Single_elim]
  by (simp add: generateDisabled_def)

subsection \<open>Team capacity\<close>

lemma find_unique_key:
  assumes "distinct (map f xs)" "find (\<lambda>t. f t = k) xs = Some y" "x \<in> set xs" "f x = k"
  shows "x = y"
proof -
  from assms(2) have "y \<in> set xs" "f y = k"
    by (auto simp: find_Some_iff)
  with assms(1,3,4) show ?thesis
    by (auto simp: distinct_map inj_on_def)
qed

lemma filter_within_cap:
  assumes "int (length ms) \<le> cap"
  shows "int (length (filter P ms)) \<le> cap"
  using assms length_filter_le [of P ms] by linarith

lemma cap_unassign:
  assumes eq: "filter Q (map (\<lambda>t. \<lparr>team_id = team_id t, team_name = team_name t,
                                    members = filter P (members t)\<rparr>) teams) = teams'"
    and c: "\<forall>t\<in>set teams. int (length (members t)) \<le> cap"
  shows "\<forall>t\<in>set teams'. int (length (members t)) \<le> cap"
proof (rule ballI)
  fix t assume "t \<in> set teams'"
  with eq obtain u where u: "u \<in> set teams" and t: "members t = filter P (members u)"
    by auto
  from c u have "int (length (members u)) \<le> cap" by blast
  then show "int (length (members t)) \<le> cap"
    unfolding t by (rule filter_within_cap)
qed

lemma cap_swap:
  assumes eq: "map f teams = teams'"
    and c: "\<forall>t\<in>set teams. int (length (members t)) \<le> cap"
    and len: "\<And>t. length (members (f t)) = length (members t)"
  shows "\<forall>t\<in>set teams'. int (length (members t)) \<le> cap"
  using c len unfolding eq [symmetric] by auto

lemma cap_drop_moved:
  assumes eq: "map (\<lambda>t.
            if String_of (team_id t) = teamId then
              (if B t then t else t\<lparr>members := members t @ [x]\<rparr>)
            else if C t then t\<lparr>members := filter P (members t)\<rparr>
            else t) teams = teams'"
    and d: "distinct (map (\<lambda>t. String_of (team_id t)) teams)"
    and c: "\<forall>t\<in>set teams. int (length (members t)) \<le> cap"
    and f: "find (\<lambda>t. String_of (team_id t) = teamId) teams = Some targetTeam"
    and r: "\<not> int (length (members targetTeam)) \<ge> cap"
  shows "\<forall>t\<in>set teams'. int (length (members t)) \<le> cap"
proof (rule ballI)
  fix t assume "t \<in> set teams'"
  with eq obtain u where u: "u \<in> set teams"
    and t: "t = (if String_of (team_id u) = teamId then
              (if B u then u else u\<lparr>members := members u @ [x]\<rparr>)
            else if C u then u\<lparr>members := filter P (members u)\<rparr>
            else u)"
    by auto
  from c u have cu: "int (length (members u)) \<le> cap" by blast
  show "int (length (members t)) \<le> cap"
  proof (cases "String_of (team_id u) = teamId")
    case True
    then have "u = targetTeam" using find_unique_key [OF d f u] by simp
    with r have "int (length (members u)) + 1 \<le> cap" by simp
    with True t cu show ?thesis by simp
  next
    case False
    with t cu filter_within_cap [OF cu, of P] show ?thesis by simp
  qed
qed

lemma cap_drop_new:
  assumes eq: "map (\<lambda>t.
            if String_of (team_id t) = teamId then t\<lparr>members := members t @ [x]\<rparr> else t) teams = teams'"
    and d: "distinct (map (\<lambda>t. String_of (team_id t)) teams)"
    and c: "\<forall>t\<in>set teams. int (length (members t)) \<le> cap"
    and f: "find (\<lambda>t. String_of (team_id t) = teamId) teams = Some targetTeam"
    and r: "\<not> int (length (members targetTeam)) \<ge> cap"
  shows "\<forall>t\<in>set teams'. int (length (members t)) \<le> cap"
proof (rule ballI)
  fix t assume "t \<in> set teams'"
  with eq obtain u where u: "u \<in> set teams"
    and t: "t = (if String_of (team_id u) = teamId then u\<lparr>members := members u @ [x]\<rparr> else u)"
    by auto
  from c u have cu: "int (length (members u)) \<le> cap" by blast
  show "int (length (members t)) \<le> cap"
  proof (cases "String_of (team_id u) = teamId")
    case True
    then have "u = targetTeam" using find_unique_key [OF d f u] by simp
    with r have "int (length (members u)) + 1 \<le> cap" by simp
    with True t cu show ?thesis by simp
  next
    case False
    with t cu show ?thesis by simp
  qed
qed

lemma handleDragEnd_capacity:
  assumes d: "distinct (map (\<lambda>t. String_of (team_id t)) teams)"
    and c: "\<forall>t\<in>set teams. int (length (members t)) \<le> cap"
    and h: "handleDragEnd cap teams people event = Some teams'"
  shows "\<forall>t\<in>set teams'. int (length (members t)) \<le> cap"
proof (cases "over event")
  case None
  with h show ?thesis by (simp add: handleDragEnd_def)
next
  case (Some overId)
  show ?thesis
  proof (cases "overId = ''unassigned''")
    case True
    with h Some show ?thesis
      apply (simp add: handleDragEnd_def Let_def split: if_splits)
      apply ((elim conjE)?)
      apply (erule cap_unassign [OF _ c])
      done
  next
    case nu: False
    show ?thesis
    proof (cases "startsWith overId ''player-''")
      case True
      with h Some nu show ?thesis
        apply (simp add: handleDragEnd_def Let_def split: if_splits option.splits prod.splits)
        apply ((elim conjE)?)
        apply (erule cap_swap [OF _ c])
        apply (simp split: option.splits)
        done
    next
      case np: False
      with h Some nu show ?thesis
        apply (simp add: handleDragEnd_def Let_def split: if_splits option.splits)
         apply ((elim conjE)?)
         apply (erule cap_drop_new [OF _ d c], assumption, simp)
         apply ((elim conjE)?)
         apply (erule cap_drop_moved [OF _ d c], assumption, simp)
        done
    qed
  qed
qed

lemma digit_val_dec: "(d::nat) < 10 \<Longrightarrow> digit_val 10 (char_of (48 + d)) = Some d"
  by (simp add: digit_val_def Let_def)

lemma digits_all_dec: "c \<in> set (digits n) \<Longrightarrow> \<exists>d::nat. d < 10 \<and> c = char_of (48 + d)"
proof (induction n rule: digits.induct)
  case (1 n)
  show ?case
  proof (cases "n < 10")
    case True
    with "1.prems" show ?thesis by (auto simp: digits.simps [of n])
  next
    case False
    with "1.prems" have "c \<in> set (digits (n div 10)) \<or> c = char_of (48 + n mod 10)"
      by (auto simp: digits.simps [of n])
    then show ?thesis
    proof
      assume "c \<in> set (digits (n div 10))"
      with "1.IH" False show ?thesis by simp
    next
      assume "c = char_of (48 + n mod 10)"
      moreover have "n mod 10 < 10" by simp
      ultimately show ?thesis by blast
    qed
  qed
qed

lemma read_digits_append:
  "\<forall>c\<in>set xs. digit_val r c \<noteq> None \<Longrightarrow>
   read_digits r acc (xs @ ys) = read_digits r (read_digits r acc xs) ys"
  by (induction xs arbitrary: acc) (auto split: option.splits)

lemma read_digits_digits: "read_digits 10 None (digits n) = Some n"
proof (induction n rule: digits.induct)
  case (1 n)
  show ?case
  proof (cases "n < 10")
    case True
    then show ?thesis by (simp add: digits.simps [of n] digit_val_dec)
  next
    case False
    have all: "\<forall>c\<in>set (digits (n div 10)). digit_val 10 c \<noteq> None"
      using digits_all_dec digit_val_dec by fastforce
    have "read_digits 10 None (digits n) =
          read_digits 10 (read_digits 10 None (digits (n div 10))) [char_of (48 + n mod 10)]"
      using False by (simp add: digits.simps [of n] read_digits_append [OF all])
    also have "\<dots> = Some (n div 10 * 10 + n mod 10)"
      using "1.IH" False by (simp add: digit_val_dec)
    finally show ?thesis by simp
  qed
qed

lemma digits_not_Nil: "digits n \<noteq> []"
  by (subst digits.simps) simp

lemma dec_char_code: "(d::nat) < 10 \<Longrightarrow> char_of (48 + d) = c \<Longrightarrow> (of_char c :: nat) = 48 + d"
  by auto

lemma dec_char_ne:
  assumes "(d::nat) < 10" and "(of_char c :: nat) < 48 \<or> 57 < (of_char c :: nat)"
  shows "char_of (48 + d) \<noteq> c"
proof
  assume "char_of (48 + d) = c"
  with assms(1) have "(of_char c :: nat) = 48 + d" by (rule dec_char_code)
  with assms show False by linarith
qed

lemma dec_char_props:
  assumes "(d::nat) < 10"
  shows "\<not> is_space (char_of (48 + d))" "char_of (48 + d) \<noteq> CHR ''-''" "char_of (48 + d) \<noteq> CHR ''+''"
    "char_of (48 + d) \<noteq> CHR ''x''" "char_of (48 + d) \<noteq> CHR ''X''" "char_of (48 + d) \<noteq> CHR ''v''"
proof -
  have "char_of (48 + d) \<noteq> c" if "c \<in> set [CHR '' '', CHR 0x09, CHR 0x0A, CHR 0x0B, CHR 0x0C, CHR 0x0D, CHR 0xA0]" for c
    using that by (intro dec_char_ne [OF assms]) auto
  then show "\<not> is_space (char_of (48 + d))" unfolding is_space_def by blast
qed (rule dec_char_ne [OF assms], simp)+

lemma digits_hd: "\<exists>d::nat. d < 10 \<and> hd (digits n) = char_of (48 + d)"
  using digits_all_dec [of "hd (digits n)" n] digits_not_Nil [of n] by simp

lemma digits_snd: "\<not> startsWith (digits n) [c, CHR ''x''] \<and> \<not> startsWith (digits n) [c, CHR ''X'']"
proof -
  have "digits n ! 1 \<noteq> CHR ''x'' \<and> digits n ! 1 \<noteq> CHR ''X''" if "length (digits n) \<ge> 2"
  proof -
    from that have "digits n ! 1 \<in> set (digits n)" by simp
    then show ?thesis using digits_all_dec dec_char_props(4,5) by metis
  qed
  then show ?thesis
    by (cases "digits n"; cases "tl (digits n)") (auto simp: startsWith_def)
qed

lemma parseInt_digits:
  assumes "n \<le> 2 ^ 53"
  shows "parseInt (digits n) = Exact (int n)"
proof -
  obtain d :: nat where d: "d < 10" "hd (digits n) = char_of (48 + d)"
    using digits_hd by blast
  obtain c cs where cs: "digits n = c # cs"
    using digits_not_Nil [of n] by (cases "digits n") auto
  with d have c: "c = char_of (48 + d)" by simp
  have 1: "dropWhile is_space (digits n) = digits n"
    using cs c dec_char_props(1) [OF d(1)] by simp
  have 2: "\<not> startsWith (digits n) ''-''" "\<not> startsWith (digits n) ''+''"
    using cs c dec_char_props(2,3) [OF d(1)] by (simp_all add: startsWith_def)
  have 3: "\<not> startsWith (digits n) ''0x''" "\<not> startsWith (digits n) ''0X''"
    using digits_snd [of n "CHR ''0''"] by simp_all
  show ?thesis
    unfolding parseInt_def Let_def 1 using 2 3 assms by (simp add: read_digits_digits)
qed

lemma takeWhile_digits: "takeWhile (\<lambda>c. c \<noteq> CHR ''v'') (digits n @ CHR ''v'' # rest) = digits n"
proof -
  have "\<forall>c\<in>set (digits n). c \<noteq> CHR ''v''"
    using digits_all_dec dec_char_props(6) by metis
  then show ?thesis by (simp add: takeWhile_append2)
qed

lemma maxPerTeam_NvN:
  "1 \<le> n \<Longrightarrow> n \<le> 2 ^ 53 \<Longrightarrow> maxPerTeam (Some (digits n @ ''v'' @ digits n)) = Exact (int n)"
  using takeWhile_digits [of n "digits n"] by (simp add: maxPerTeam_def parseInt_digits)

lemma drop_on_team_with_room:
  assumes "find (\<lambda>t. String_of (team_id t) = tid) teams = Some tgt"
    and "int (length (members tgt)) < cap"
    and "find (\<lambda>p. sameId (entry_id (fst p)) (Str x)) people = Some person"
    and "find (\<lambda>t. \<exists>m\<in>set (members t). sameId (member_id m) (Str x)) teams = None"
  shows "handleDragEnd cap teams people \<lparr>active = ''player-'' @ x, over = Some (''team-'' @ tid)\<rparr> =
           Some (map (\<lambda>t. if String_of (team_id t) = tid
                           then t\<lparr>members := members t @ [as_member person]\<rparr> else t) teams)"
  using assms by (simp add: handleDragEnd_def startsWith_def Let_def)

lemma drop_on_full_team:
  assumes "find (\<lambda>t. String_of (team_id t) = tid) teams = Some t"
    and "int (length (members t)) \<ge> cap"
  shows "handleDragEnd cap teams people \<lparr>active = a, over = Some (''team-'' @ tid)\<rparr> = None"
  using assms by (simp add: handleDragEnd_def startsWith_def Let_def)

text \<open>
  Claim C6. The capacity is read from the format, and a format \<open>NvN\<close> gives \<open>N\<close> (for
  every \<open>N\<close> from 1 to \<open>2^53\<close>, the integers a double holds exactly). On a team list
  whose teams have distinct ids and at most capacity members each, whatever a drag hands
  to \<^verbatim>\<open>onUpdateTeams\<close> (after an unassign, a swap of two players or a drop on a team) is
  again a list of teams with at most capacity members each; a drop on a team that
  already has capacity members changes nothing, and a drop of an unassigned player on a
  team with room adds that player to that team.
\<close>

theorem C6_team_capacity:
  assumes "distinct (map (\<lambda>t. String_of (team_id t)) teams)"
    and "maxPerTeam fmt = Exact cap"
    and "\<forall>t\<in>set teams. int (length (members t)) \<le> cap"
  shows "(handleDragEnd cap teams people event = Some teams' \<longrightarrow>
            (\<forall>t\<in>set teams'. int (length (members t)) \<le> cap))
         \<and> (find (\<lambda>t. String_of (team_id t) = tid) teams = Some full
              \<and> int (length (members full)) \<ge> cap \<longrightarrow>
            handleDragEnd cap teams people
              \<lparr>active = a, over = Some (''team-'' @ tid)\<rparr> = None)
         \<and> (find (\<lambda>t. String_of (team_id t) = tid) teams = Some tgt
              \<and> int (length (members tgt)) < cap
              \<and> find (\<lambda>p. sameId (entry_id (fst p)) (Str x)) people = Some person
              \<and> find (\<lambda>t. \<exists>m\<in>set (members t). sameId (member_id m) (Str x)) teams = None \<longrightarrow>
            handleDragEnd cap teams people
              \<lparr>active = ''player-'' @ x, over = Some (''team-'' @ tid)\<rparr> =
              Some (map (\<lambda>t. if String_of (team_id t) = tid
                              then t\<lparr>members := members t @ [as_member person]\<rparr> else t) teams))
         \<and> (1 \<le> n \<and> n \<le> 2 ^ 53 \<longrightarrow>
              maxPerTeam (Some (digits n @ ''v'' @ digits n)) = Exact (int n))"
  using handleDragEnd_capacity [OF assms(1,3), of people event teams']
    drop_on_full_team [of tid teams full cap people a]
    drop_on_team_with_room [of tid teams tgt cap x people person]
    maxPerTeam_NvN [of n]
  by blast

theorem C6_team_capacity_witness:
  "maxPerTeam (Some ''2v2'') = Exact 2
   \<and> handleDragEnd 2 example_teams example_people
       \<lparr>active = ''player-'' @ ''7'', over = Some (''team-'' @ ''2'')\<rparr>
     = Some [example_teams ! 0,
             \<lparr>team_id = Num 2, team_name = ''Beta'',
              members = [\<lparr>member_id = Num 12, member_name = ''Cy''\<rparr>,
                         \<lparr>member_id = Num 7, member_name = ''Zed''\<rparr>]\<rparr>]
   \<and> list_all (\<lambda>t. int (length (members t)) \<le> 2)
       [example_teams ! 0,
        \<lparr>team_id = Num 2, team_name = ''Beta'',
         members = [\<lparr>member_id = Num 12, member_name = ''Cy''\<rparr>,
                    \<lparr>member_id = Num 7, member_name = ''Zed''\<rparr>]\<rparr>]
   \<and> handleDragEnd 2 example_teams example_people
       \<lparr>active = ''player-12'', over = Some (''team-'' @ ''1'')\<rparr> = None
   \<and> maxPerTeam (Some (digits 2 @ ''v'' @ digits 2)) = Exact 2"
proof -
  have d: "distinct (map (\<lambda>t. String_of (team_id t)) example_teams)"
    by code_simp
  have m: "maxPerTeam (Some ''2v2'') = Exact 2"
    by (simp add: maxPerTeam_def parseInt_def startsWith_def is_space_def digit_val_def)
  have c: "\<forall>t\<in>set example_teams. int (length (members t)) \<le> 2"
    by (simp add: example_teams_def)
  have h: "handleDragEnd 2 example_teams example_people
       \<lparr>active = ''player-'' @ ''7'', over = Some (''team-'' @ ''2'')\<rparr>
     = Some [example_teams ! 0,
             \<lparr>team_id = Num 2, team_name = ''Beta'',
              members = [\<lparr>member_id = Num 12, member_name = ''Cy''\<rparr>,
                         \<lparr>member_id = Num 7, member_name = ''Zed''\<rparr>]\<rparr>]"
    by code_simp
  have f: "find (\<lambda>t. String_of (team_id t) = ''1'') example_teams = Some (example_teams ! 0)"
    by code_simp
  have g: "int (length (members (example_teams ! 0))) \<ge> 2"
    by code_simp
  have n: "(1::nat) \<le> 2 \<and> (2::nat) \<le> 2 ^ 53" by simp
  show ?thesis
    using C6_team_capacity [OF d m c, where people = example_people
        and event = "\<lparr>active = ''player-'' @ ''7'', over = Some (''team-'' @ ''2'')\<rparr>"
        and tid = "''1''" and full = "example_teams ! 0" and a = "''player-12''" and n = 2]
      h f g m n
    by (simp add: list_all_iff)
qed

subsection \<open>Advancing on a dropout\<close>





lemma advance_unknown:
  assumes "find (\<lambda>x. match_id x = mid) (concat (map snd (rounds br))) = None"
  shows "advanceOpponent e (Some br) mid slot st = st"
  using assms by (simp add: advanceOpponent_def find_match_def)




subsection \<open>Inferred winners\<close>

lemma find_map_nth:
  "find P (map f xs) = map_option f (find (\<lambda>x. P (f x)) xs)"
  by (induction xs) auto

lemma find_Some_mem: "find P xs = Some x \<Longrightarrow> x \<in> set xs"
  by (auto simp: find_Some_iff)

lemma resolves_byId:
  "spec_parent (map ((!) h0) all) m =
     (case parent_match_id m of
        None \<Rightarrow> None
      | Some k \<Rightarrow> if k = 0 then None else map_option ((!) h0) (byId h0 all k))"
  by (simp add: spec_parent_def byId_def rev_map find_map_nth split: option.splits)

lemma store_last: "(h0 @ ex @ [x]) ! (length h0 + length ex) = x"
  by (metis append.assoc length_append nth_append_length)

lemma store_old: "p < length h0 \<Longrightarrow> (h0 @ ex) ! p = h0 ! p"
  by (simp add: nth_append)

lemma store_write: "(h0 @ ex @ [x])[length h0 + length ex := y] = h0 @ ex @ [y]"
  by (metis append.assoc length_append list_update_length)

lemma byId_in_store:
  assumes "\<forall>x\<in>set all. x < length h0" and "byId h0 all k = Some p"
  shows "p < length h0"
  using assms unfolding byId_def by (auto dest: find_Some_mem)

lemma enrich_match_shown:
  assumes a: "a < length h0"
    and all: "\<forall>x\<in>set all. x < length h0"
  shows "enrich_match (byId h0 all) (h0 @ ex) a =
           (h0 @ ex @ [spec_shown (map ((!) h0) all) (h0 ! a)], length (h0 @ ex))"
proof (cases "spec_parent (map ((!) h0) all) (h0 ! a)")
  case None
  then show ?thesis
    using a unfolding resolves_byId
    by (auto simp: enrich_match_def Let_def spec_shown_def resolves_byId store_last store_old
        split: option.splits if_splits)
next
  case (Some parent)
  then obtain k p where k: "parent_match_id (h0 ! a) = Some k" "k \<noteq> 0"
    and p: "byId h0 all k = Some p" "parent = h0 ! p"
    unfolding resolves_byId by (auto split: option.splits if_splits)
  have pl: "p < length h0" using byId_in_store [OF all p(1)] .
  have pp: "(h0 @ ex @ [x]) ! p = h0 ! p" for x :: match
    using pl by (simp add: nth_append)
  have sh: "spec_shown (map ((!) h0) all) (h0 ! a) =
     (if \<not> truthy_str (winner_name (h0 ! a)) \<and> hasContent (spec_target_name (h0 ! p) (h0 ! a))
      then (h0 ! a)\<lparr>winner_name := spec_target_name (h0 ! p) (h0 ! a), inferred_winner := True\<rparr>
      else h0 ! a)"
    unfolding spec_shown_def Some p(2) by simp
  show ?thesis
    using a k p(1)
    by (auto simp: enrich_match_def Let_def sh store_last store_old store_write pp
        spec_target_name_def hasContent_def)
qed

lemma upt_nth_store:
  "map ((!) (xs @ ys @ zs)) [length xs ..< length xs + length ys] = ys"
  by (rule nth_equalityI) (simp_all add: nth_append)

lemma enrich_matches_shown:
  assumes "\<forall>a\<in>set as. a < length h0"
    and all: "\<forall>x\<in>set all. x < length h0"
  shows "enrich_matches (byId h0 all) (h0 @ ex) as =
           (h0 @ ex @ map (\<lambda>a. spec_shown (map ((!) h0) all) (h0 ! a)) as,
            [length (h0 @ ex) ..< length (h0 @ ex) + length as])"
  using assms(1)
proof (induction as arbitrary: ex)
  case Nil
  then show ?case by simp
next
  case (Cons a as)
  have 1: "enrich_match (byId h0 all) (h0 @ ex) a =
           (h0 @ ex @ [spec_shown (map ((!) h0) all) (h0 ! a)], length (h0 @ ex))"
    using Cons.prems all by (intro enrich_match_shown) auto
  have 2: "enrich_matches (byId h0 all) (h0 @ (ex @ [spec_shown (map ((!) h0) all) (h0 ! a)])) as =
           (h0 @ (ex @ [spec_shown (map ((!) h0) all) (h0 ! a)]) @ map (\<lambda>a. spec_shown (map ((!) h0) all) (h0 ! a)) as,
            [length (h0 @ (ex @ [spec_shown (map ((!) h0) all) (h0 ! a)])) ..<
             length (h0 @ (ex @ [spec_shown (map ((!) h0) all) (h0 ! a)])) + length as])"
    using Cons.prems by (intro Cons.IH) auto
  show ?case
    using 1 2 by (simp add: upt_conv_Cons del: upt_Suc)
qed

lemma enrich_entries_shown:
  assumes "\<forall>a\<in>set (concat (map snd rs)). a < length h0"
    and all: "\<forall>x\<in>set all. x < length h0"
    and res: "enrich_entries (byId h0 all) (h0 @ ex) rs = (h', out)"
  shows "\<exists>ex'. h' = h0 @ ex @ ex'
          \<and> deref h' out = map (\<lambda>(r, as). (r, map (\<lambda>a. spec_shown (map ((!) h0) all) (h0 ! a)) as)) rs
          \<and> (\<forall>c\<in>set (concat (map snd out)). length (h0 @ ex) \<le> c \<and> c < length h')"
  using assms(1) res
proof (induction rs arbitrary: ex h' out)
  case Nil
  then show ?case by (auto simp: deref_def)
next
  case (Cons e rs)
  obtain r as where e: "e = (r, as)" by (cases e)
  let ?vs = "map (\<lambda>a. spec_shown (map ((!) h0) all) (h0 ! a)) as"
  have 1: "enrich_matches (byId h0 all) (h0 @ ex) as =
             (h0 @ ex @ ?vs, [length (h0 @ ex) ..< length (h0 @ ex) + length as])"
    using Cons.prems(1) all unfolding e by (intro enrich_matches_shown) auto
  obtain h2 out2 where 2: "enrich_entries (byId h0 all) (h0 @ (ex @ ?vs)) rs = (h2, out2)"
    by (cases "enrich_entries (byId h0 all) (h0 @ (ex @ ?vs)) rs")
  from Cons.prems(2) 1 2 have hout: "h' = h2" "out = (r, [length (h0 @ ex) ..< length (h0 @ ex) + length as]) # out2"
    unfolding e by simp_all
  from Cons.IH [OF _ 2] Cons.prems(1) obtain ex' where
    ih: "h2 = h0 @ (ex @ ?vs) @ ex'"
      "deref h2 out2 = map (\<lambda>(r, as). (r, map (\<lambda>a. spec_shown (map ((!) h0) all) (h0 ! a)) as)) rs"
      "\<forall>c\<in>set (concat (map snd out2)). length (h0 @ (ex @ ?vs)) \<le> c \<and> c < length h2"
    by auto
  have nth: "map ((!) h2) [length (h0 @ ex) ..< length (h0 @ ex) + length as] = ?vs"
    using upt_nth_store [of "h0 @ ex" ?vs ex'] unfolding ih(1) by simp
  show ?case
  proof (intro exI [of _ "?vs @ ex'"] conjI)
    show "h' = h0 @ ex @ ?vs @ ex'" using hout(1) ih(1) by simp
    show "deref h' out = map (\<lambda>(r, as). (r, map (\<lambda>a. spec_shown (map ((!) h0) all) (h0 ! a)) as)) (e # rs)"
      using ih(2) nth unfolding hout e by (simp add: deref_def)
    show "\<forall>c\<in>set (concat (map snd out)). length (h0 @ ex) \<le> c \<and> c < length h'"
      using ih(3) unfolding hout ih(1) by fastforce
  qed
qed

lemma deref_concat: "concat (map snd (deref h rs)) = map ((!) h) (concat (map snd rs))"
  by (induction rs) (auto simp: deref_def)

lemma enrichRounds_refines:
  assumes valid: "\<forall>a\<in>set (concat (map snd rs)). a < length h"
    and res: "enrichRoundsWithInferredWinners h rs = (h', out)"
  shows "take (length h) h' = h"
    and "deref h' out =
           map (\<lambda>(r, ms). (r, map (spec_shown (concat (map snd (deref h rs)))) ms)) (deref h rs)"
    and "\<forall>c\<in>set (concat (map snd out)). length h \<le> c \<and> c < length h'"
proof -
  from res have "enrich_entries (byId h (concat (map snd rs))) (h @ []) rs = (h', out)"
    by (simp add: enrichRoundsWithInferredWinners_def)
  from enrich_entries_shown [OF valid valid this] obtain ex' where
    ex: "h' = h @ [] @ ex'"
      "deref h' out = map (\<lambda>(r, as). (r, map (\<lambda>a. spec_shown (map ((!) h) (concat (map snd rs))) (h ! a)) as)) rs"
      "\<forall>c\<in>set (concat (map snd out)). length (h @ []) \<le> c \<and> c < length h'"
    by blast
  show "take (length h) h' = h" using ex(1) by simp
  show "deref h' out =
           map (\<lambda>(r, ms). (r, map (spec_shown (concat (map snd (deref h rs)))) ms)) (deref h rs)"
    unfolding ex(2) deref_concat by (simp add: deref_def comp_def case_prod_unfold)
  show "\<forall>c\<in>set (concat (map snd out)). length h \<le> c \<and> c < length h'"
    using ex(3) by simp
qed

lemma concat_snd_map:
  "concat (map snd (map (\<lambda>(r, ms). (r, map f ms)) xs)) = map f (concat (map snd xs))"
  by (induction xs) auto

lemma enriched_pointwise:
  assumes valid: "\<forall>a\<in>set (concat (map snd rs)). a < length h"
    and res: "enrichRoundsWithInferredWinners h rs = (h', out)"
    and i: "i < length (concat (map snd rs))"
  shows "i < length (concat (map snd out))"
    and "h' ! (concat (map snd out) ! i) =
           spec_shown (map ((!) h) (concat (map snd rs))) (h ! (concat (map snd rs) ! i))"
proof -
  have "map ((!) h') (concat (map snd out)) =
          map (spec_shown (map ((!) h) (concat (map snd rs)))) (map ((!) h) (concat (map snd rs)))"
    using arg_cong [OF enrichRounds_refines(2) [OF valid res], of "\<lambda>x. concat (map snd x)"]
    unfolding concat_snd_map deref_concat .
  then have eq: "map ((!) h') (concat (map snd out)) =
          map (\<lambda>a. spec_shown (map ((!) h) (concat (map snd rs))) (h ! a)) (concat (map snd rs))"
    by simp
  from arg_cong [OF eq, of length] show len: "i < length (concat (map snd out))"
    using i by simp
  from arg_cong [OF eq, of "\<lambda>xs. xs ! i"] len i
  show "h' ! (concat (map snd out) ! i) =
           spec_shown (map ((!) h) (concat (map snd rs))) (h ! (concat (map snd rs) ! i))"
    by simp
qed

lemma spec_shown_cases:
  "spec_shown ms m = m \<or> (\<not> truthy_str (winner_name m) \<and> inferred_winner (spec_shown ms m))"
  by (auto simp: spec_shown_def split: option.splits)

lemma actions_need_recorded_winner:
  assumes "x \<in> set (round_panel_actions ce hs hc lbl (spec_shown ms m))
             \<union> set (visual_actions hs hc ch (spec_shown ms m))
             \<union> set (tree_actions hs hc (spec_shown ms m))"
  shows "truthy_str (winner_name m) \<and> bothFilled m \<and> spec_shown ms m = m \<and> \<not> inferred_winner m"
  using assms spec_shown_cases [of ms m]
  by (auto simp: round_panel_actions_def visual_actions_def tree_actions_def bothFilled_def
      split: if_splits)

lemma no_actions_without_recorded_winner:
  assumes "\<not> truthy_str (winner_name m)"
  shows "round_panel_actions ce hs hc lbl (spec_shown ms m) = []"
    and "visual_actions hs hc ch (spec_shown ms m) = []"
    and "tree_actions hs hc (spec_shown ms m) = []"
  using assms spec_shown_cases [of ms m]
  by (auto simp: round_panel_actions_def visual_actions_def tree_actions_def)

text \<open>
  Claim C2. Enrichment writes to no object of its input and returns new objects only. The
  enriched rounds have the keys and the shape of the input, and each match is shown as
  the claim says: a match with no recorded \<open>winner_name\<close> whose \<open>parent_match_id\<close>
  resolves to a match of the bracket, and whose target slot in that match holds a real
  name, is shown with that name as its winner and the \<open>inferred_winner\<close> flag; every
  other match is shown with all its fields unchanged.
\<close>

theorem C2_inferred_winner_display:
  assumes "\<forall>a\<in>set (concat (map snd rs)). a < length h"
    and "enrichRoundsWithInferredWinners h rs = (h', out)"
  shows "take (length h) h' = h
     \<and> (\<forall>c\<in>set (concat (map snd out)). length h \<le> c \<and> c < length h')
     \<and> deref h' out =
         map (\<lambda>(r, ms). (r, map (spec_shown (concat (map snd (deref h rs)))) ms)) (deref h rs)
     \<and> (\<not> truthy_str (winner_name m) \<and> spec_parent ms m = Some p
          \<and> hasContent (spec_target_name p m) \<longrightarrow>
        spec_shown ms m = m\<lparr>winner_name := spec_target_name p m, inferred_winner := True\<rparr>)
     \<and> (truthy_str (winner_name m) \<or> spec_parent ms m = None
          \<or> (\<exists>q. spec_parent ms m = Some q \<and> \<not> hasContent (spec_target_name q m)) \<longrightarrow>
        spec_shown ms m = m)"
proof -
  have "\<not> truthy_str (winner_name m) \<and> spec_parent ms m = Some p
          \<and> hasContent (spec_target_name p m) \<longrightarrow>
        spec_shown ms m = m\<lparr>winner_name := spec_target_name p m, inferred_winner := True\<rparr>"
    by (simp add: spec_shown_def)
  moreover have "truthy_str (winner_name m) \<or> spec_parent ms m = None
          \<or> (\<exists>q. spec_parent ms m = Some q \<and> \<not> hasContent (spec_target_name q m)) \<longrightarrow>
        spec_shown ms m = m"
    by (auto simp: spec_shown_def split: option.splits)
  ultimately show ?thesis
    using enrichRounds_refines [OF assms] by blast
qed

theorem C2_inferred_winner_display_witness:
  "enrichRoundsWithInferredWinners example_store [(1, [0, 2]), (2, [1])] =
     (example_store @
        [(example_store ! 0)\<lparr>winner_name := Some ''Alpha'', inferred_winner := True\<rparr>,
         example_store ! 2, example_store ! 1],
      [(1, [3, 4]), (2, [5])])
   \<and> take (length example_store)
        (example_store @
          [(example_store ! 0)\<lparr>winner_name := Some ''Alpha'', inferred_winner := True\<rparr>,
           example_store ! 2, example_store ! 1]) = example_store
   \<and> spec_shown example_store (example_store ! 0) =
        (example_store ! 0)\<lparr>winner_name := Some ''Alpha'', inferred_winner := True\<rparr>
   \<and> spec_shown example_store (example_store ! 2) = example_store ! 2"
proof -
  have v: "\<forall>a\<in>set (concat (map snd [(1::int, [0, 2]), (2, [1::nat])])). a < length example_store"
    by (simp add: example_store_def)
  have r: "enrichRoundsWithInferredWinners example_store [(1, [0, 2]), (2, [1])] =
     (example_store @
        [(example_store ! 0)\<lparr>winner_name := Some ''Alpha'', inferred_winner := True\<rparr>,
         example_store ! 2, example_store ! 1],
      [(1, [3, 4]), (2, [5])])"
    by (simp add: enrichRoundsWithInferredWinners_def example_store_def example_match_def
        enrich_match_def byId_def or_str_def Let_def)
  have p: "spec_parent example_store (example_store ! 0) = Some (example_store ! 1)"
    by (simp add: spec_parent_def example_store_def example_match_def)
  have n: "spec_target_name (example_store ! 1) (example_store ! 0) = Some ''Alpha''"
    by (simp add: spec_target_name_def example_store_def example_match_def or_str_def)
  have w: "\<not> truthy_str (winner_name (example_store ! 0))"
    "truthy_str (winner_name (example_store ! 2))"
    by (simp_all add: example_store_def example_match_def)
  show ?thesis
    using C2_inferred_winner_display [OF v r, of "example_store ! 0" example_store "example_store ! 1"]
      C2_inferred_winner_display [OF v r, of "example_store ! 2" example_store]
      r p n w
    by (simp add: hasContent_def)
qed

text \<open>
  Claim C3. On the enriched rounds that the views render, a match with no recorded
  winner gets neither Swap nor Undo in any view, whatever its inferred winner; and a
  Swap or an Undo that a view does offer stands on a match whose winner is recorded in
  the input, whose two slots both hold an entity, and which enrichment left unchanged.
  The other controls of a match never issue a swap or a clearing of the winner.
\<close>

theorem C3_inferred_winner_not_authoritative:
  assumes "\<forall>a\<in>set (concat (map snd rs)). a < length h"
    and "enrichRoundsWithInferredWinners h rs = (h', out)"
    and "i < length (concat (map snd rs))"
  shows "(\<not> truthy_str (winner_name (h ! (concat (map snd rs) ! i))) \<longrightarrow>
            round_panel_actions ce hs hc lbl (h' ! (concat (map snd out) ! i)) = []
            \<and> visual_actions hs hc ch (h' ! (concat (map snd out) ! i)) = []
            \<and> tree_actions hs hc (h' ! (concat (map snd out) ! i)) = [])
       \<and> (x \<in> set (round_panel_actions ce hs hc lbl (h' ! (concat (map snd out) ! i)))
               \<union> set (visual_actions hs hc ch (h' ! (concat (map snd out) ! i)))
               \<union> set (tree_actions hs hc (h' ! (concat (map snd out) ! i))) \<longrightarrow>
            truthy_str (winner_name (h ! (concat (map snd rs) ! i)))
            \<and> bothFilled (h ! (concat (map snd rs) ! i))
            \<and> \<not> inferred_winner (h' ! (concat (map snd out) ! i))
            \<and> h' ! (concat (map snd out) ! i) = h ! (concat (map snd rs) ! i))
       \<and> box_winner_click ce ip (h' ! (concat (map snd out) ! i)) s
            \<notin> {Some (SwapWinner k), Some (ClearWinner k)}
       \<and> slot_advance_click ce ip (h' ! (concat (map snd out) ! i)) s
            \<notin> {Some (SwapWinner k), Some (ClearWinner k)}"
proof -
  let ?m = "h ! (concat (map snd rs) ! i)"
  let ?ms = "map ((!) h) (concat (map snd rs))"
  have c: "h' ! (concat (map snd out) ! i) = spec_shown ?ms ?m"
    using enriched_pointwise(2) [OF assms] .
  have 1: "\<not> truthy_str (winner_name ?m) \<longrightarrow>
            round_panel_actions ce hs hc lbl (spec_shown ?ms ?m) = []
            \<and> visual_actions hs hc ch (spec_shown ?ms ?m) = []
            \<and> tree_actions hs hc (spec_shown ?ms ?m) = []"
    using no_actions_without_recorded_winner by blast
  have 2: "x \<in> set (round_panel_actions ce hs hc lbl (spec_shown ?ms ?m))
               \<union> set (visual_actions hs hc ch (spec_shown ?ms ?m))
               \<union> set (tree_actions hs hc (spec_shown ?ms ?m)) \<longrightarrow>
            truthy_str (winner_name ?m) \<and> bothFilled ?m
            \<and> \<not> inferred_winner (spec_shown ?ms ?m) \<and> spec_shown ?ms ?m = ?m"
    using actions_need_recorded_winner [of x ce hs hc lbl ?ms ?m ch] by auto
  have 3: "box_winner_click ce ip (spec_shown ?ms ?m) s \<notin> {Some (SwapWinner k), Some (ClearWinner k)}"
    "slot_advance_click ce ip (spec_shown ?ms ?m) s \<notin> {Some (SwapWinner k), Some (ClearWinner k)}"
    by (simp_all add: box_winner_click_def slot_advance_click_def Let_def)
  show ?thesis
    unfolding c using 1 2 3 by blast
qed

theorem C3_inferred_winner_not_authoritative_witness:
  "round_panel_actions True True True ''Winners''
      ((example_store ! 0)\<lparr>winner_name := Some ''Alpha'', inferred_winner := True\<rparr>) = []
   \<and> visual_actions True True False
      ((example_store ! 0)\<lparr>winner_name := Some ''Alpha'', inferred_winner := True\<rparr>) = []
   \<and> tree_actions True True
      ((example_store ! 0)\<lparr>winner_name := Some ''Alpha'', inferred_winner := True\<rparr>) = []
   \<and> round_panel_actions True True True ''Winners'' (example_store ! 2) =
        [SwapWinner 3, ClearWinner 3]
   \<and> truthy_str (winner_name (example_store ! 2)) \<and> bothFilled (example_store ! 2)"
proof -
  have v: "\<forall>a\<in>set (concat (map snd [(1::int, [0, 2]), (2, [1::nat])])). a < length example_store"
    by (simp add: example_store_def)
  have r: "enrichRoundsWithInferredWinners example_store [(1, [0, 2]), (2, [1])] =
     (example_store @
        [(example_store ! 0)\<lparr>winner_name := Some ''Alpha'', inferred_winner := True\<rparr>,
         example_store ! 2, example_store ! 1],
      [(1, [3, 4]), (2, [5])])"
    by (simp add: enrichRoundsWithInferredWinners_def example_store_def example_match_def
        enrich_match_def byId_def or_str_def Let_def)
  have w: "\<not> truthy_str (winner_name (example_store ! 0))"
    by (simp add: example_store_def example_match_def)
  have a: "round_panel_actions True True True ''Winners'' (example_store ! 2) =
        [SwapWinner 3, ClearWinner 3]"
    by (simp add: round_panel_actions_def bothFilled_def slot_filled_def or_id_def
        example_store_def example_match_def)
  have l: "length example_store = 3" by (simp add: example_store_def)
  show ?thesis
    using C3_inferred_winner_not_authoritative [OF v r, where i = 0 and ce = True and hs = True
        and hc = True and lbl = "''Winners''" and ch = False]
      C3_inferred_winner_not_authoritative [OF v r, where i = 1 and ce = True and hs = True
        and hc = True and lbl = "''Winners''" and ch = False and x = "SwapWinner 3"]
      w a l
    by (simp add: nth_append)
qed

subsection \<open>The advancement engine\<close>

lemma get_put [simp]: "get_slot (put_slot pm s c) s = c"
  by (cases s) simp_all

lemma winner_put [simp]: "winner (put_slot pm s c) = winner pm"
  by (cases s) simp_all

lemma setWinner_success:
  assumes "engine_setWinner b mid s = Inr b1"
  obtains m x y where "b mid = Some m" "slot1 m = Entity x" "slot2 m = Entity y"
    "b1 = propagate (b(mid \<mapsto> m\<lparr>winner := Some (case s of Slot1 \<Rightarrow> x | Slot2 \<Rightarrow> y)\<rparr>)) m
            (case s of Slot1 \<Rightarrow> x | Slot2 \<Rightarrow> y)"
proof -
  from assms obtain m where m: "b mid = Some m"
    by (auto simp: engine_setWinner_def split: option.splits)
  from assms m obtain x y where xy: "entity_of (slot1 m) = Some x" "entity_of (slot2 m) = Some y"
    by (auto simp: engine_setWinner_def split: option.splits)
  then have e: "slot1 m = Entity x" "slot2 m = Entity y"
    by (cases "slot1 m"; cases "slot2 m"; simp)+
  from assms m xy have "b1 = propagate (b(mid \<mapsto> m\<lparr>winner := Some (case s of Slot1 \<Rightarrow> x | Slot2 \<Rightarrow> y)\<rparr>)) m
            (case s of Slot1 \<Rightarrow> x | Slot2 \<Rightarrow> y)"
    by (auto simp: engine_setWinner_def Let_def split: if_splits)
  with m e that show thesis by blast
qed

lemma setWinner_precondition:
  assumes "b mid = Some m" and "entity_of (slot1 m) = None \<or> entity_of (slot2 m) = None"
  shows "engine_setWinner b mid s =
           Inl (PreconditionError ''cannot set a winner before both slots are filled'')"
  using assms by (auto simp: engine_setWinner_def split: option.splits)

lemma setWinner_effect:
  assumes "engine_setWinner b mid s = Inr b'"
  shows "\<exists>m e. b mid = Some m \<and> entity_of (slot1 m) \<noteq> None \<and> entity_of (slot2 m) \<noteq> None
           \<and> get_slot m s = Entity e
           \<and> map_option winner (b' mid) = Some (Some e)
           \<and> (\<forall>p pm. parent_id m = Some p \<and> b p = Some pm \<longrightarrow>
                map_option (\<lambda>n. get_slot n (parent_slot m)) (b' p) = Some (Entity e))"
proof -
  from assms obtain m x y where m: "b mid = Some m" "slot1 m = Entity x" "slot2 m = Entity y"
    and b': "b' = propagate (b(mid \<mapsto> m\<lparr>winner := Some (case s of Slot1 \<Rightarrow> x | Slot2 \<Rightarrow> y)\<rparr>)) m
            (case s of Slot1 \<Rightarrow> x | Slot2 \<Rightarrow> y)"
    by (rule setWinner_success)
  define e where "e = (case s of Slot1 \<Rightarrow> x | Slot2 \<Rightarrow> y)"
  have g: "get_slot m s = Entity e" using m by (cases s) (simp_all add: e_def)
  have w: "map_option winner (b' mid) = Some (Some e)"
    unfolding b' e_def [symmetric] by (auto simp: propagate_def split: option.splits)
  have p: "map_option (\<lambda>n. get_slot n (parent_slot m)) (b' p) = Some (Entity e)"
    if "parent_id m = Some p" "b p = Some pm" for p pm
    using that unfolding b' e_def [symmetric] by (auto simp: propagate_def split: option.splits)
  from m g w p show ?thesis by auto
qed

lemma box_setWinner_gate:
  assumes "box_winner_click canEdit isPreview fm fs = Some (SetWinner i j)"
  shows "bothFilled fm \<and> \<not> truthy_str (winner_name fm) \<and> i = match_id fm \<and> j = fs"
  using assms by (auto simp: box_winner_click_def Let_def split: if_splits)

lemma setWinner_request:
  assumes "find_match br i = Some fm"
  shows "setWinner env br i j st =
           (if truthy_id (slot_id (isTeam_of br) fm j)
            then send env (Patch_match i (winner_body (isTeam_of br) fm (slot_id (isTeam_of br) fm j)))
                   (detail_or_error_or ''Failed to set winner'') st
            else st)"
  using assms by (simp add: setWinner_def Let_def)

text \<open>
  Claim C4. The engine's setWinner succeeds only on a match whose two slots both hold an
  entity; then the entity of the chosen slot is the winner and stands in the parent's
  slot. On a match with a slot that holds no entity it fails with the precondition error
  ``cannot set a winner before both slots are filled''. The client offers the click that
  sets a winner only on a match with both slots filled and no winner shown, and its
  request names the identifier of the chosen slot.
\<close>

theorem C4_setWinner_requires_both_slots:
  "(engine_setWinner b mid s = Inr b' \<longrightarrow>
      (\<exists>m e. b mid = Some m \<and> entity_of (slot1 m) \<noteq> None \<and> entity_of (slot2 m) \<noteq> None
         \<and> get_slot m s = Entity e
         \<and> map_option winner (b' mid) = Some (Some e)
         \<and> (\<forall>p pm. parent_id m = Some p \<and> b p = Some pm \<longrightarrow>
              map_option (\<lambda>n. get_slot n (parent_slot m)) (b' p) = Some (Entity e))))
   \<and> (b mid = Some m \<and> (entity_of (slot1 m) = None \<or> entity_of (slot2 m) = None) \<longrightarrow>
        engine_setWinner b mid s =
          Inl (PreconditionError ''cannot set a winner before both slots are filled''))
   \<and> (box_winner_click canEdit isPreview fm fs = Some (SetWinner i j) \<longrightarrow>
        bothFilled fm \<and> \<not> truthy_str (winner_name fm) \<and> i = match_id fm \<and> j = fs)
   \<and> (find_match br i = Some fm \<longrightarrow>
        setWinner env br i j st =
          (if truthy_id (slot_id (isTeam_of br) fm j)
           then send env (Patch_match i (winner_body (isTeam_of br) fm (slot_id (isTeam_of br) fm j)))
                  (detail_or_error_or ''Failed to set winner'') st
           else st))"
  using setWinner_effect [of b mid s b'] setWinner_precondition [of b mid m s]
    box_setWinner_gate [of canEdit isPreview fm fs i j] setWinner_request [of br i fm env j st]
  by blast

theorem C4_setWinner_requires_both_slots_witness:
  "engine_setWinner example_ready 2 Slot1 =
     Inl (PreconditionError ''cannot set a winner before both slots are filled'')
   \<and> \<not> isl (engine_setWinner example_ready 1 Slot1)
   \<and> map_option winner (projr (engine_setWinner example_ready 1 Slot1) 1) = Some (Some 10)
   \<and> map_option slot1 (projr (engine_setWinner example_ready 1 Slot1) 2) = Some (Entity 10)
   \<and> box_winner_click True False (example_store ! 0) 1 = Some (SetWinner 1 1)"
proof -
  have m: "example_ready 2 =
      Some \<lparr>slot1 = Empty, slot2 = Empty, winner = None, parent_id = None, parent_slot = Slot1\<rparr>"
    by (simp add: example_ready_def)
  have r: "engine_setWinner example_ready 1 Slot1 = Inr (projr (engine_setWinner example_ready 1 Slot1))"
    by (simp add: engine_setWinner_def propagate_def example_ready_def)
  have v: "map_option winner (projr (engine_setWinner example_ready 1 Slot1) 1) = Some (Some 10)"
    "map_option slot1 (projr (engine_setWinner example_ready 1 Slot1) 2) = Some (Entity 10)"
    by (simp_all add: engine_setWinner_def propagate_def example_ready_def)
  have c: "box_winner_click True False (example_store ! 0) 1 = Some (SetWinner 1 1)"
    by (simp add: box_winner_click_def slot_name_def bothFilled_def slot_filled_def hasContent_def
        or_str_def or_id_def example_store_def example_match_def)
  have p: "engine_setWinner example_ready 2 Slot1 =
     Inl (PreconditionError ''cannot set a winner before both slots are filled'')"
    using C4_setWinner_requires_both_slots [where b = example_ready and mid = 2 and s = Slot1
        and m = "\<lparr>slot1 = Empty, slot2 = Empty, winner = None, parent_id = None, parent_slot = Slot1\<rparr>"]
      m
    by simp
  have n: "\<not> isl (engine_setWinner example_ready 1 Slot1)"
    by (subst r) simp
  show ?thesis
    using p n v c by simp
qed

end
